theory Spec2Isabelle
  imports Main "HOL-Library.AList"
begin

section \<open>Values, objects and the heap\<close>

text \<open>
  The resolver of \<^verbatim>\<open>src/Contentfully.ts\<close> works on untyped JSON (\<^verbatim>\<open>any\<close>) and on
  plain objects that it mutates in place and shares by reference (the link slots). Values
  are modelled by \<open>val\<close>; an object that the code mutates lives in the heap and is named by
  \<open>JRef\<close>, every other object or array is never written after its creation and is a plain
  value. A property list is in enumeration (insertion) order; lookup takes the first
  binding. Numbers are integers.

  The link index is an object literal (\<^verbatim>\<open>const links: any = {}\<close>), so that
  \<^verbatim>\<open>links[id]\<close> is a member of \<^verbatim>\<open>Object.prototype\<close> when the index has no slot for
  the id and the id is the name of such a member. \<open>JInherited k\<close> is that member: a
  function, or the prototype object itself for \<^verbatim>\<open>__proto__\<close>. It lives outside the
  heap: of what the code writes on it the model keeps the \<^verbatim>\<open>_id\<close>, taken to be the key. A
  payload object has its own properties only, and a record filed under \<^verbatim>\<open>__proto__\<close> is
  filed like any other.
\<close>

datatype val =
    JUndefined
  | JNull
  | JBool bool
  | JNum int
  | JStr string
  | JArr "val list"
  | JObj "(string \<times> val) list"
  | JRef nat
  | JInherited string

type_synonym props = "(string \<times> val) list"
type_synonym heap = "props list"
type_synonym links = "(string \<times> nat) list"

datatype error = TypeError | HookError string

text \<open>
  A call either returns, throws, or exceeds the bound on the depth of the call stack
  (respectively on the number of iterations of a \<^verbatim>\<open>while\<close> loop) that the model is
  run with.
\<close>

datatype 'a result = OutOfFuel | Throw error | Ok 'a

definition andThen :: "'a result \<Rightarrow> ('a \<Rightarrow> 'b result) \<Rightarrow> 'b result" where
  "andThen m f = (case m of OutOfFuel \<Rightarrow> OutOfFuel | Throw e \<Rightarrow> Throw e | Ok x \<Rightarrow> f x)"

fun forEachM :: "('a \<Rightarrow> 's \<Rightarrow> 's result) \<Rightarrow> 'a list \<Rightarrow> 's \<Rightarrow> 's result" where
  "forEachM f [] s = Ok s"
| "forEachM f (x # xs) s = andThen (f x s) (forEachM f xs)"

fun mapM :: "('a \<Rightarrow> 's \<Rightarrow> ('b \<times> 's) result) \<Rightarrow> 'a list \<Rightarrow> 's \<Rightarrow> ('b list \<times> 's) result" where
  "mapM f [] s = Ok ([], s)"
| "mapM f (x # xs) s =
     andThen (f x s) (\<lambda>(y, s1). andThen (mapM f xs s1) (\<lambda>(ys, s2). Ok (y # ys, s2)))"

definition objAt :: "heap \<Rightarrow> nat \<Rightarrow> props" where
  "objAt h a = (if a < length h then h ! a else [])"

definition alloc :: "props \<Rightarrow> heap \<Rightarrow> nat \<times> heap" where
  "alloc ps h = (length h, h @ [ps])"

definition ownProp :: "props \<Rightarrow> string \<Rightarrow> val" where
  "ownProp ps k = (case map_of ps k of None \<Rightarrow> JUndefined | Some v \<Rightarrow> v)"

definition setField :: "nat \<Rightarrow> string \<Rightarrow> val \<Rightarrow> heap \<Rightarrow> heap" where
  "setField a k v h = h[a := AList.update k v (objAt h a)]"

definition deleteField :: "nat \<Rightarrow> string \<Rightarrow> heap \<Rightarrow> heap" where
  "deleteField a k h = h[a := AList.delete k (objAt h a)]"

text \<open>\<^verbatim>\<open>_.assign(target, source)\<close>: the own properties of the source, in order.\<close>

definition assignProps :: "nat \<Rightarrow> props \<Rightarrow> heap \<Rightarrow> heap" where
  "assignProps a src h = h[a := fold (\<lambda>(k, v). AList.update k v) src (objAt h a)]"

subsection \<open>Property keys\<close>

definition digit :: "nat \<Rightarrow> char" where
  "digit d = ''0123456789'' ! d"

function decimal :: "nat \<Rightarrow> string" where
  "decimal n = (if n < 10 then [digit n] else decimal (n div 10) @ [digit (n mod 10)])"
  by pat_completeness auto
termination
  by (relation "measure id") auto

declare decimal.simps [simp del]

definition digitVal :: "char \<Rightarrow> nat option" where
  "digitVal c = map_of (zip ''0123456789'' [0 ..< 10]) c"

text \<open>The array index that a property key denotes, when it is a canonical numeral.\<close>

definition indexOfKey :: "string \<Rightarrow> nat option" where
  "indexOfKey k =
     (if k = [] \<or> (hd k = CHR ''0'' \<and> tl k \<noteq> []) \<or> (\<exists>c \<in> set k. digitVal c = None) then None
      else Some (fold (\<lambda>c n. 10 * n + the (digitVal c)) k 0))"

fun joinComma :: "string list \<Rightarrow> string" where
  "joinComma [] = []"
| "joinComma [s] = s"
| "joinComma (s # t # ss) = s @ '','' @ joinComma (t # ss)"

text \<open>The string that JavaScript uses when a value is a property key (\<^verbatim>\<open>links[sys.id]\<close>).\<close>

fun toKey :: "val \<Rightarrow> string" where
  "toKey JUndefined = ''undefined''"
| "toKey JNull = ''null''"
| "toKey (JBool b) = (if b then ''true'' else ''false'')"
| "toKey (JNum i) = (if i < 0 then ''-'' @ decimal (nat (- i)) else decimal (nat i))"
| "toKey (JStr s) = s"
| "toKey (JArr xs) =
     joinComma (map (\<lambda>x. if x = JUndefined \<or> x = JNull then [] else toKey x) xs)"
| "toKey (JObj ps) = ''[object Object]''"
| "toKey (JRef a) = ''[object Object]''"
| "toKey (JInherited k) =
     (if k = ''__proto__'' then ''[object Object]''
      else ''function '' @ (if k = ''constructor'' then ''Object'' else k) @ ''() { [native code] }'')"

text \<open>The names of the members of \<^verbatim>\<open>Object.prototype\<close>.\<close>

definition inheritedKeys :: "string list" where
  "inheritedKeys =
     [''constructor'', ''__defineGetter__'', ''__defineSetter__'', ''hasOwnProperty'',
      ''__lookupGetter__'', ''__lookupSetter__'', ''isPrototypeOf'', ''propertyIsEnumerable'',
      ''toString'', ''valueOf'', ''__proto__'', ''toLocaleString'']"

subsection \<open>Reading, truthiness and the lodash helpers\<close>

definition truthy :: "val \<Rightarrow> bool" where
  "truthy v = (case v of JUndefined \<Rightarrow> False | JNull \<Rightarrow> False | JBool b \<Rightarrow> b
     | JNum i \<Rightarrow> i \<noteq> 0 | JStr s \<Rightarrow> s \<noteq> [] | _ \<Rightarrow> True)"

definition indexed :: "string \<Rightarrow> 'a list \<Rightarrow> ('a \<Rightarrow> val) \<Rightarrow> val" where
  "indexed k xs f =
     (if k = ''length'' then JNum (int (length xs))
      else case indexOfKey k of
             Some i \<Rightarrow> if i < length xs then f (xs ! i) else JUndefined
           | None \<Rightarrow> JUndefined)"

text \<open>\<^verbatim>\<open>v[k]\<close> and \<^verbatim>\<open>v.k\<close>: a TypeError on \<^verbatim>\<open>undefined\<close> and \<^verbatim>\<open>null\<close>.\<close>

definition getProp :: "heap \<Rightarrow> val \<Rightarrow> string \<Rightarrow> val result" where
  "getProp h v k =
     (case v of
        JUndefined \<Rightarrow> Throw TypeError
      | JNull \<Rightarrow> Throw TypeError
      | JBool b \<Rightarrow> Ok JUndefined
      | JNum i \<Rightarrow> Ok JUndefined
      | JStr s \<Rightarrow> Ok (indexed k s (\<lambda>c. JStr [c]))
      | JArr xs \<Rightarrow> Ok (indexed k xs (\<lambda>x. x))
      | JObj ps \<Rightarrow> Ok (ownProp ps k)
      | JRef a \<Rightarrow> Ok (ownProp (objAt h a) k)
      | JInherited m \<Rightarrow> Ok (if k = ''_id'' then JStr m else JUndefined))"

text \<open>\<^verbatim>\<open>target[k] = v\<close> in strict mode.\<close>

definition setProp :: "heap \<Rightarrow> val \<Rightarrow> string \<Rightarrow> val \<Rightarrow> (val \<times> heap) result" where
  "setProp h target k v =
     (case target of
        JObj ps \<Rightarrow> Ok (JObj (AList.update k v ps), h)
      | JRef a \<Rightarrow> Ok (JRef a, setField a k v h)
      | JInherited m \<Rightarrow> Ok (JInherited m, h)
      | _ \<Rightarrow> Throw TypeError)"

definition ownEntries :: "heap \<Rightarrow> val \<Rightarrow> props" where
  "ownEntries h v =
     (case v of
        JObj ps \<Rightarrow> ps
      | JRef a \<Rightarrow> objAt h a
      | JArr xs \<Rightarrow> map (\<lambda>i. (decimal i, xs ! i)) [0 ..< length xs]
      | JStr s \<Rightarrow> map (\<lambda>i. (decimal i, JStr [s ! i])) [0 ..< length s]
      | JInherited m \<Rightarrow> [(''_id'', JStr m)]
      | _ \<Rightarrow> [])"

definition isArray :: "val \<Rightarrow> bool" where
  "isArray v = (case v of JArr xs \<Rightarrow> True | _ \<Rightarrow> False)"

definition arrayItems :: "val \<Rightarrow> val list" where
  "arrayItems v = (case v of JArr xs \<Rightarrow> xs | _ \<Rightarrow> [])"

text \<open>
  lodash \<^verbatim>\<open>isArrayLike\<close>: not a function, with a \<^verbatim>\<open>length\<close> that is an integer from 0
  to \<open>2\<^sup>5\<^sup>3 - 1\<close>. An object with such a property is iterated by index.
\<close>

definition isLength :: "val \<Rightarrow> bool" where
  "isLength v = (case v of JNum i \<Rightarrow> 0 \<le> i \<and> i \<le> 9007199254740991 | _ \<Rightarrow> False)"

definition isArrayLike :: "heap \<Rightarrow> val \<Rightarrow> bool" where
  "isArrayLike h v =
     (case v of
        JStr s \<Rightarrow> True
      | JArr xs \<Rightarrow> True
      | JObj ps \<Rightarrow> isLength (ownProp ps ''length'')
      | JRef a \<Rightarrow> isLength (ownProp (objAt h a) ''length'')
      | _ \<Rightarrow> False)"

definition lengthOf :: "heap \<Rightarrow> val \<Rightarrow> nat" where
  "lengthOf h v =
     (case v of
        JStr s \<Rightarrow> length s
      | JArr xs \<Rightarrow> length xs
      | JObj ps \<Rightarrow> (case ownProp ps ''length'' of JNum i \<Rightarrow> nat i | _ \<Rightarrow> 0)
      | JRef a \<Rightarrow> (case ownProp (objAt h a) ''length'' of JNum i \<Rightarrow> nat i | _ \<Rightarrow> 0)
      | _ \<Rightarrow> 0)"

definition valueOr :: "val result \<Rightarrow> val" where
  "valueOr r = (case r of Ok v \<Rightarrow> v | _ \<Rightarrow> JUndefined)"

text \<open>
  The pairs that \<^verbatim>\<open>_.forEach\<close> and \<^verbatim>\<open>_.map\<close> visit: nothing for \<^verbatim>\<open>null\<close> and
  \<^verbatim>\<open>undefined\<close>, the indices of an array-like collection (for an array and a string
  these are its own entries), the own properties of any other object.
\<close>

definition collectionEntries :: "heap \<Rightarrow> val \<Rightarrow> props" where
  "collectionEntries h v =
     (case v of
        JArr xs \<Rightarrow> ownEntries h v
      | JStr s \<Rightarrow> ownEntries h v
      | _ \<Rightarrow>
          if isArrayLike h v
          then map (\<lambda>i. (decimal i, valueOr (getProp h v (decimal i)))) [0 ..< lengthOf h v]
          else ownEntries h v)"

text \<open>\<^verbatim>\<open>_.keys\<close>: the own enumerable property names.\<close>

definition keysOf :: "heap \<Rightarrow> val \<Rightarrow> string list" where
  "keysOf h v = map fst (ownEntries h v)"

text \<open>
  \<^verbatim>\<open>_.isEmpty\<close>: true for \<^verbatim>\<open>null\<close>, \<^verbatim>\<open>undefined\<close>, every number and boolean, the empty
  string, the empty array and an object or function without own enumerable properties.
\<close>

definition isEmpty :: "heap \<Rightarrow> val \<Rightarrow> bool" where
  "isEmpty h v =
     (case v of
        JStr s \<Rightarrow> s = []
      | JArr xs \<Rightarrow> xs = []
      | JObj ps \<Rightarrow> ps = []
      | JRef a \<Rightarrow> objAt h a = []
      | JInherited m \<Rightarrow> False
      | _ \<Rightarrow> True)"

text \<open>\<^verbatim>\<open>_.compact\<close>: the falsy elements removed.\<close>

definition compact :: "val list \<Rightarrow> val list" where
  "compact xs = filter truthy xs"

text \<open>\<^verbatim>\<open>_.pick(object, paths)\<close>: the listed properties that the object has.\<close>

definition pick :: "heap \<Rightarrow> val \<Rightarrow> string list \<Rightarrow> val" where
  "pick h v ks =
     JObj (concat (map (\<lambda>k. case map_of (ownEntries h v) k of None \<Rightarrow> [] | Some x \<Rightarrow> [(k, x)]) ks))"

section \<open>The entry resolver\<close>

text \<open>
  \<^verbatim>\<open>_parseEntry\<close>, \<^verbatim>\<open>_parseValueByLocale\<close>, \<^verbatim>\<open>_parseValue\<close> and \<^verbatim>\<open>_dereferenceLink\<close>
  call each other, and every cycle of calls passes through \<^verbatim>\<open>_dereferenceLink\<close>. The first
  three take that function as the argument \<open>deref\<close>; \<open>dereferenceLink n\<close> is the function
  itself, run with room for \<open>n\<close> nested dereferences on the call stack. The link index
  \<^verbatim>\<open>links\<close> is written by \<^verbatim>\<open>_createLinks\<close> only; every slot it holds is an object of
  the heap.
\<close>

type_synonym deref = "val \<Rightarrow> links \<Rightarrow> string option \<Rightarrow> heap \<Rightarrow> (val \<times> heap) result"

definition parseValue :: "deref \<Rightarrow> val \<Rightarrow> links \<Rightarrow> string option \<Rightarrow> heap \<Rightarrow> (val \<times> heap) result" where
  "parseValue deref value links locale h =
     andThen (getProp h value ''sys'') (\<lambda>sys.
       if sys = JUndefined then Ok (value, h)
       else andThen (getProp h sys ''type'') (\<lambda>ty.
         if ty \<noteq> JStr ''Link'' then Ok (value, h)
         else deref value links locale h))"

definition parseLocale :: "deref \<Rightarrow> val \<Rightarrow> links \<Rightarrow> string \<Rightarrow> val \<times> heap \<Rightarrow> (val \<times> heap) result" where
  "parseLocale deref value links locale = (\<lambda>(values, h).
     andThen (getProp h value locale) (\<lambda>atLocale.
       if isArray atLocale then
         andThen (mapM (\<lambda>item. parseValue deref item links (Some locale)) (arrayItems atLocale) h)
           (\<lambda>(items, h1). setProp h1 values locale (JArr (compact items)))
       else
         andThen (getProp h atLocale ''sys'') (\<lambda>sys.
           if sys = JUndefined then setProp h values locale atLocale
           else andThen (getProp h sys ''type'') (\<lambda>ty.
             if ty \<noteq> JStr ''Link'' then setProp h values locale atLocale
             else andThen (getProp h sys ''linkType'') (\<lambda>linkType.
               if linkType = JStr ''Asset''
               then deref value links (Some locale) h
               else andThen (deref value links (Some locale) h)
                      (\<lambda>(link, h1). setProp h1 values locale link))))))"

definition parseValueByLocale :: "deref \<Rightarrow> val \<Rightarrow> links \<Rightarrow> heap \<Rightarrow> (val \<times> heap) result" where
  "parseValueByLocale deref value links h =
     forEachM (parseLocale deref value links) (keysOf h value) (JObj [], h)"

definition parseField :: "deref \<Rightarrow> links \<Rightarrow> bool \<Rightarrow> string \<times> val \<Rightarrow> props \<times> heap \<Rightarrow> (props \<times> heap) result" where
  "parseField deref links multiLocale = (\<lambda>(key, value) (fields, h).
     if multiLocale then
       andThen (parseValueByLocale deref value links h) (\<lambda>(parsedLocale, h1).
         Ok (if \<not> isEmpty h1 parsedLocale then AList.update key parsedLocale fields
             else fields, h1))
     else if isArray value then
       andThen (mapM (\<lambda>item. parseValue deref item links None) (arrayItems value) h)
         (\<lambda>(items, h1). Ok (AList.update key (JArr (compact items)) fields, h1))
     else
       andThen (parseValue deref value links None h) (\<lambda>(parsed, h1).
         Ok (if \<not> isEmpty h1 parsed then AList.update key parsed fields
             else fields, h1)))"

definition parseEntry :: "deref \<Rightarrow> val \<Rightarrow> links \<Rightarrow> bool \<Rightarrow> heap \<Rightarrow> (props \<times> heap) result" where
  "parseEntry deref entry links multiLocale h =
     andThen (getProp h entry ''fields'') (\<lambda>entryFields.
       forEachM (parseField deref links multiLocale) (collectionEntries h entryFields) ([], h))"

definition linkSys :: "heap \<Rightarrow> val \<Rightarrow> string option \<Rightarrow> val result" where
  "linkSys h reference locale =
     (case locale of
        None \<Rightarrow> getProp h reference ''sys''
      | Some l \<Rightarrow>
          if l = [] then getProp h reference ''sys''
          else andThen (getProp h reference l) (\<lambda>atLocale.
                 if truthy atLocale then getProp h atLocale ''sys''
                 else getProp h reference ''sys''))"

definition contentTypeId :: "heap \<Rightarrow> val \<Rightarrow> val result" where
  "contentTypeId h sys =
     andThen (getProp h sys ''contentType'') (\<lambda>contentType.
     andThen (getProp h contentType ''sys'') (\<lambda>contentTypeSys.
       getProp h contentTypeSys ''id''))"

text \<open>
  \<^verbatim>\<open>links[modelId]\<close> when the index has no slot for the key: the member of
  \<^verbatim>\<open>Object.prototype\<close> of that name, else \<^verbatim>\<open>undefined\<close>. The member is truthy and has no
  \<^verbatim>\<open>_deferred\<close>, so \<^verbatim>\<open>_dereferenceLink\<close> writes its \<^verbatim>\<open>_id\<close> and returns it.
\<close>

definition inherited :: "string \<Rightarrow> val" where
  "inherited k = (if k \<in> set inheritedKeys then JInherited k else JUndefined)"

definition dereferenceLinkBody :: "deref \<Rightarrow> deref" where
  "dereferenceLinkBody deref reference links locale h =
     andThen (linkSys h reference locale) (\<lambda>sys.
     andThen (getProp h sys ''id'') (\<lambda>modelId.
       case map_of links (toKey modelId) of
         None \<Rightarrow> Ok (inherited (toKey modelId), h)
       | Some a \<Rightarrow>
           let h1 = setField a ''_id'' modelId h;
               deferred = ownProp (objAt h1 a) ''_deferred''
           in if truthy deferred then
                andThen (getProp h1 deferred ''sys'') (\<lambda>deferredSys.
                andThen (contentTypeId h1 deferredSys) (\<lambda>typeId.
                andThen (parseEntry deref deferred links (locale \<noteq> None)
                           (setField a ''_type'' typeId h1))
                  (\<lambda>(parsed, h2).
                     Ok (JRef a, deleteField a ''_deferred'' (assignProps a parsed h2)))))
              else Ok (JRef a, h1)))"

primrec dereferenceLink :: "nat \<Rightarrow> deref" where
  "dereferenceLink 0 = (\<lambda>reference links locale h. OutOfFuel)"
| "dereferenceLink (Suc n) = dereferenceLinkBody (dereferenceLink n)"

text \<open>\<^verbatim>\<open>_parseEntries\<close>: the top-level items, in order.\<close>

definition parseItem :: "nat \<Rightarrow> links \<Rightarrow> bool \<Rightarrow> val \<Rightarrow> heap \<Rightarrow> (val \<times> heap) result" where
  "parseItem n links multiLocale entry h =
     andThen (getProp h entry ''sys'') (\<lambda>sys.
     andThen (getProp h sys ''id'') (\<lambda>modelId.
       case map_of links (toKey modelId) of
         None \<Rightarrow>
           if toKey modelId \<in> set inheritedKeys then
             andThen (contentTypeId h sys) (\<lambda>typeId.
             andThen (getProp h sys ''updatedAt'') (\<lambda>updatedAt.
               Ok (JInherited (toKey modelId), h)))
           else Throw TypeError
       | Some a \<Rightarrow>
           andThen
             (let deferred = ownProp (objAt h a) ''_deferred''
              in if truthy deferred then
                   andThen (parseEntry (dereferenceLink n) deferred links multiLocale h)
                     (\<lambda>(parsed, h1). Ok (deleteField a ''_deferred'' (assignProps a parsed h1)))
                 else Ok h)
             (\<lambda>h2.
           let h3 = setField a ''_id'' modelId h2 in
           andThen (contentTypeId h3 sys) (\<lambda>typeId.
           andThen (getProp h3 sys ''updatedAt'') (\<lambda>updatedAt.
             let h4 = setField a ''_type'' typeId h3
             in Ok (JRef a,
                    if truthy updatedAt then setField a ''_updatedAt'' updatedAt h4 else h4))))))"

definition parseEntries :: "nat \<Rightarrow> val \<Rightarrow> links \<Rightarrow> bool \<Rightarrow> heap \<Rightarrow> (val list \<times> heap) result" where
  "parseEntries n entries links multiLocale h =
     mapM (parseItem n links multiLocale) (map snd (collectionEntries h entries)) h"

section \<open>The media resolver and the link index builder\<close>

text \<open>
  The media transform hook is the caller's (\<^verbatim>\<open>MediaTransform\<close> of \<^verbatim>\<open>QueryOptions\<close>): it
  takes a media descriptor and returns a promise of one. The model has what the promise
  settles to, a descriptor or a failure, and whether it has settled when the reply of the
  upstream to \<^verbatim>\<open>getLocales\<close> arrives.
\<close>

datatype hook = Hook (hookResult: "props \<Rightarrow> error + props") (hookInTime: "props \<Rightarrow> bool")

type_synonym mediaTransform = hook

definition toMedia :: "heap \<Rightarrow> val \<Rightarrow> val \<Rightarrow> mediaTransform option \<Rightarrow> props result" where
  "toMedia h sys fields mediaTransform =
     andThen (getProp h fields ''file'') (\<lambda>file.
     andThen (getProp h fields ''description'') (\<lambda>description.
     andThen (getProp h sys ''id'') (\<lambda>sysId.
     andThen (getProp h file ''url'') (\<lambda>url.
     andThen (getProp h file ''contentType'') (\<lambda>contentType.
     andThen (getProp h file ''details'') (\<lambda>details.
     andThen (getProp h details ''image'') (\<lambda>image.
     andThen (getProp h details ''size'') (\<lambda>size.
     andThen (getProp h sys ''revision'') (\<lambda>revision.
       let media =
             [(''_id'', sysId),
              (''url'', url),
              (''description'', description),
              (''contentType'', contentType),
              (''dimensions'', pick h image [''width'', ''height'']),
              (''size'', size),
              (''version'', revision)]
       in case mediaTransform of
            None \<Rightarrow> Ok media
          | Some transform \<Rightarrow>
              (case hookResult transform media of
                 Inl e \<Rightarrow> Throw e
               | Inr transformed \<Rightarrow> Ok transformed))))))))))"

text \<open>
  \<^verbatim>\<open>_parseAssetByLocale\<close> regroups the fields of an asset by locale. Every group holds the
  \<^verbatim>\<open>sys\<close> of the asset and its own \<^verbatim>\<open>fields\<close>; the model keeps the fields of each group.
\<close>

definition parseAssetByLocale :: "heap \<Rightarrow> val \<Rightarrow> (string \<times> props) list result" where
  "parseAssetByLocale h entry =
     andThen (getProp h entry ''fields'') (\<lambda>entryFields.
       Ok (fold (\<lambda>(key, field) locales.
                  fold (\<lambda>locale locales.
                         AList.update locale
                           (AList.update key (valueOr (getProp h field locale))
                              (case map_of locales locale of None \<Rightarrow> [] | Some fields \<Rightarrow> fields))
                           locales)
                    (keysOf h field) locales)
             (collectionEntries h entryFields) []))"

text \<open>
  The callbacks of the multi-locale branch of \<^verbatim>\<open>_createLinks\<close> are asynchronous and
  nothing awaits them. \<^verbatim>\<open>_.forEach\<close> runs each up to its \<^verbatim>\<open>await\<close>; it is resumed when
  the promise of \<^verbatim>\<open>_toMedia\<close> has settled, and only then writes its key of \<^verbatim>\<open>media\<close>, or
  logs in its \<^verbatim>\<open>catch\<close>. Without a hook, and when \<^verbatim>\<open>_toMedia\<close> throws before it reaches
  the hook, that promise is settled at once and the callback is resumed before \<^verbatim>\<open>_query\<close>
  is, that is before \<^verbatim>\<open>_parseEntries\<close>. With a hook, \<^verbatim>\<open>_toMedia\<close> is suspended at the
  \<^verbatim>\<open>await\<close> of the hook and \<^verbatim>\<open>_query\<close> is resumed first: the callback is resumed after
  \<^verbatim>\<open>_parseEntries\<close>, while \<^verbatim>\<open>_query\<close> awaits \<^verbatim>\<open>getLocales\<close>, when the promise of the hook
  has settled by then, and after the query has returned otherwise.
\<close>

datatype phase = BeforeParsing | BeforeFlattening | AfterReturn

text \<open>A suspended callback: when it is resumed, the locale whose key it writes, and what
  the promise of \<^verbatim>\<open>_toMedia\<close> has settled to.\<close>

datatype callback =
  Callback (callbackPhase: phase) (callbackLocale: string) (callbackSettled: "props result")

definition resumedIn :: "heap \<Rightarrow> val \<Rightarrow> val \<Rightarrow> mediaTransform option \<Rightarrow> phase" where
  "resumedIn h sys fields mediaTransform =
     (case mediaTransform of
        None \<Rightarrow> BeforeParsing
      | Some transform \<Rightarrow>
          (case toMedia h sys fields None of
             Ok media \<Rightarrow> if hookInTime transform media then BeforeFlattening else AfterReturn
           | _ \<Rightarrow> BeforeParsing))"

text \<open>The callback for one locale group, up to its \<^verbatim>\<open>await\<close>.\<close>

definition localeMedia :: "heap \<Rightarrow> val \<Rightarrow> mediaTransform option \<Rightarrow> string \<times> props \<Rightarrow> callback list \<Rightarrow> callback list" where
  "localeMedia h sys mediaTransform = (\<lambda>(locale, fields) suspended.
     if truthy (ownProp fields ''file'') then
       suspended @
         [Callback (resumedIn h sys (JObj fields) mediaTransform) locale
            (toMedia h sys (JObj fields) mediaTransform)]
     else suspended)"

text \<open>The rest of the callback of a media map (the object at an address of the heap):
  \<^verbatim>\<open>delete transformed._id; media[locale] = transformed\<close>, or the \<^verbatim>\<open>catch\<close> that logs.\<close>

fun resume :: "nat \<times> callback \<Rightarrow> heap \<times> error list \<Rightarrow> heap \<times> error list" where
  "resume (a, Callback p locale (Ok transformed)) (h, logged) =
     (setField a locale (JObj (AList.delete ''_id'' transformed)) h, logged)"
| "resume (a, Callback p locale (Throw e)) (h, logged) = (h, logged @ [e])"
| "resume (a, Callback p locale OutOfFuel) (h, logged) = (h, logged)"

fun phaseOf :: "nat \<times> callback \<Rightarrow> phase" where
  "phaseOf (a, Callback p locale settled) = p"

text \<open>The suspended callbacks of a phase are resumed in the order in which they were
  started.\<close>

definition resumeAll :: "phase \<Rightarrow> (nat \<times> callback) list \<Rightarrow> heap \<times> error list \<Rightarrow> heap \<times> error list" where
  "resumeAll p pending = fold resume (filter (\<lambda>c. phaseOf c = p) pending)"

definition getPath :: "heap \<Rightarrow> val \<Rightarrow> string list \<Rightarrow> val" where
  "getPath h v path = fold (\<lambda>k x. valueOr (getProp h x k)) path v"

text \<open>\<^verbatim>\<open>for (const x of v || [])\<close>.\<close>

definition iterate :: "val \<Rightarrow> val list result" where
  "iterate v =
     (if \<not> truthy v then Ok []
      else case v of
             JArr xs \<Rightarrow> Ok xs
           | JStr s \<Rightarrow> Ok (map (\<lambda>c. JStr [c]) s)
           | _ \<Rightarrow> Throw TypeError)"

text \<open>The link index, the heap that holds its slots, and the callbacks that are suspended,
  each with the address of its media map.\<close>

type_synonym index = "links \<times> heap \<times> (nat \<times> callback) list"

text \<open>
  The \<^verbatim>\<open>media\<close> of one included asset as it is when \<^verbatim>\<open>_createLinks\<close> files it, and the
  callbacks that the multi-locale branch has started: there the object is still empty. The
  single-locale branch awaits \<^verbatim>\<open>_toMedia\<close>.
\<close>

definition assetMedia :: "heap \<Rightarrow> bool \<Rightarrow> mediaTransform option \<Rightarrow> val \<Rightarrow> val \<Rightarrow> (props \<times> callback list) result" where
  "assetMedia h multiLocale mediaTransform asset sys =
     (if multiLocale then
        andThen (parseAssetByLocale h asset) (\<lambda>locales.
          Ok ([], fold (localeMedia h sys mediaTransform) locales []))
      else
        andThen (getProp h asset ''fields'') (\<lambda>fields.
        andThen (toMedia h sys fields mediaTransform) (\<lambda>media. Ok (media, []))))"

definition linkAsset :: "bool \<Rightarrow> mediaTransform option \<Rightarrow> val \<Rightarrow> index \<Rightarrow> index result" where
  "linkAsset multiLocale mediaTransform asset = (\<lambda>(links, h, pending).
     andThen (getProp h asset ''sys'') (\<lambda>sys.
     andThen (assetMedia h multiLocale mediaTransform asset sys) (\<lambda>(media, suspended).
     andThen (getProp h sys ''id'') (\<lambda>sysId.
       let (a, h1) = alloc media h
       in Ok (AList.update (toKey sysId) a links, h1, pending @ map (Pair a) suspended)))))"

definition linkEntry :: "val \<Rightarrow> index \<Rightarrow> index result" where
  "linkEntry entry = (\<lambda>(links, h, pending).
     andThen (getProp h entry ''sys'') (\<lambda>sys.
     andThen (getProp h sys ''id'') (\<lambda>sysId.
       let (a, h1) = alloc [(''_deferred'', entry)] h
       in Ok (AList.update (toKey sysId) a links, h1, pending))))"

definition createLinks :: "val \<Rightarrow> bool \<Rightarrow> mediaTransform option \<Rightarrow> heap \<Rightarrow> index result" where
  "createLinks json multiLocale mediaTransform h =
     andThen (iterate (getPath h json [''includes'', ''Asset''])) (\<lambda>assets.
     andThen (forEachM (linkAsset multiLocale mediaTransform) assets ([], h, [])) (\<lambda>index1.
     andThen (iterate (getPath h json [''includes'', ''Entry''])) (\<lambda>entries.
     andThen (forEachM linkEntry entries index1) (\<lambda>index2.
     andThen (iterate (getPath h json [''items''])) (\<lambda>items.
       forEachM linkEntry items index2)))))"

section \<open>The locale flattener\<close>

text \<open>
  \<^verbatim>\<open>_flattenLocales\<close> reads the resolved models and writes fresh objects and arrays only
  (the contexts). The contexts live in a store of their own; a node of the queue names its
  context by its address in the store.
\<close>

datatype out = OVal val | OCtx nat

datatype ctx = CObj "(string \<times> out) list" | CArr "out list"

type_synonym store = "ctx list"

record node =
  nodeContext :: nat
  nodeItem :: val
  nodeDepth :: nat

text \<open>\<^verbatim>\<open>context[key] = v\<close> on an object context, \<^verbatim>\<open>itemContext[index] = v\<close> at the end of
  an array context.\<close>

definition putKey :: "nat \<Rightarrow> string \<Rightarrow> out \<Rightarrow> store \<Rightarrow> store" where
  "putKey c k v st =
     (if c < length st
      then st[c := (case st ! c of CObj ps \<Rightarrow> CObj (AList.update k v ps) | CArr xs \<Rightarrow> CArr xs)]
      else st)"

definition pushElem :: "nat \<Rightarrow> out \<Rightarrow> store \<Rightarrow> store" where
  "pushElem c v st =
     (if c < length st
      then st[c := (case st ! c of CArr xs \<Rightarrow> CArr (xs @ [v]) | CObj ps \<Rightarrow> CObj ps)]
      else st)"

text \<open>\<^verbatim>\<open>typeof v === "object"\<close>.\<close>

definition isObjectType :: "val \<Rightarrow> bool" where
  "isObjectType v = (case v of JNull \<Rightarrow> True | JArr xs \<Rightarrow> True | JObj ps \<Rightarrow> True
     | JRef a \<Rightarrow> True | JInherited m \<Rightarrow> m = ''__proto__'' | _ \<Rightarrow> False)"

definition selectLocale :: "heap \<Rightarrow> val \<Rightarrow> string \<Rightarrow> string \<Rightarrow> val" where
  "selectLocale h value locale defaultLocale =
     (if truthy (valueOr (getProp h value locale)) then valueOr (getProp h value locale)
      else if truthy (valueOr (getProp h value defaultLocale))
      then valueOr (getProp h value defaultLocale)
      else value)"

definition visitElement :: "nat \<Rightarrow> nat \<Rightarrow> val \<Rightarrow> node list \<times> store \<Rightarrow> node list \<times> store" where
  "visitElement arrayContext d element = (\<lambda>(queue, st).
     if \<not> isObjectType element then (queue, pushElem arrayContext (OVal element) st)
     else
       (queue @ [\<lparr>nodeContext = length st, nodeItem = element, nodeDepth = d + 1\<rparr>],
        pushElem arrayContext (OCtx (length st)) (st @ [CObj []])))"

definition visitEntry :: "heap \<Rightarrow> string \<Rightarrow> string \<Rightarrow> nat \<Rightarrow> nat \<Rightarrow> string \<times> val \<Rightarrow> node list \<times> store \<Rightarrow> node list \<times> store" where
  "visitEntry h locale defaultLocale c d = (\<lambda>(key, valueObj) (queue, st).
     if valueObj = JUndefined \<or> valueObj = JNull then (queue, st)
     else
       let value = selectLocale h valueObj locale defaultLocale
       in if \<not> isObjectType value then (queue, putKey c key (OVal value) st)
          else if \<not> isArray value then
            (queue @ [\<lparr>nodeContext = length st, nodeItem = value, nodeDepth = d + 1\<rparr>],
             putKey c key (OCtx (length st)) (st @ [CObj []]))
          else
            fold (visitElement (length st) d) (arrayItems value)
              (queue, putKey c key (OCtx (length st)) (st @ [CArr []])))"

text \<open>One iteration of the \<^verbatim>\<open>while\<close> loop, for the node taken from the queue.
  \<^verbatim>\<open>Object.entries\<close> throws on \<^verbatim>\<open>null\<close> and \<^verbatim>\<open>undefined\<close>.\<close>

definition visitNode :: "heap \<Rightarrow> string \<Rightarrow> string \<Rightarrow> node \<Rightarrow> node list \<times> store \<Rightarrow> (node list \<times> store) result" where
  "visitNode h locale defaultLocale current = (\<lambda>(queue, st).
     if nodeItem current = JUndefined \<or> nodeItem current = JNull then Throw TypeError
     else Ok (fold (visitEntry h locale defaultLocale (nodeContext current) (nodeDepth current))
                (ownEntries h (nodeItem current)) (queue, st)))"

fun flattenLoop :: "nat \<Rightarrow> heap \<Rightarrow> string \<Rightarrow> string \<Rightarrow> node list \<Rightarrow> store \<Rightarrow> store result" where
  "flattenLoop n h locale defaultLocale [] st = Ok st"
| "flattenLoop 0 h locale defaultLocale (current # queue) st = OutOfFuel"
| "flattenLoop (Suc n) h locale defaultLocale (current # queue) st =
     andThen (visitNode h locale defaultLocale current (queue, st))
       (\<lambda>(queue1, st1). flattenLoop n h locale defaultLocale queue1 st1)"

definition flattenItem :: "nat \<Rightarrow> heap \<Rightarrow> string \<Rightarrow> string \<Rightarrow> nat \<Rightarrow> val \<Rightarrow> store \<Rightarrow> store result" where
  "flattenItem n h locale defaultLocale localeContext rawItem st =
     flattenLoop n h locale defaultLocale
       [\<lparr>nodeContext = length st, nodeItem = rawItem, nodeDepth = 0\<rparr>]
       (pushElem localeContext (OCtx (length st)) (st @ [CObj []]))"

definition flattenLocale :: "nat \<Rightarrow> heap \<Rightarrow> string \<Rightarrow> val list \<Rightarrow> nat \<Rightarrow> string \<Rightarrow> store \<Rightarrow> store result" where
  "flattenLocale n h defaultLocale rawItems localeItems locale st =
     forEachM (flattenItem n h locale defaultLocale (length st)) rawItems
       (putKey localeItems locale (OCtx (length st)) (st @ [CArr []]))"

fun propOfEach :: "heap \<Rightarrow> string \<Rightarrow> val list \<Rightarrow> val list result" where
  "propOfEach h k [] = Ok []"
| "propOfEach h k (x # xs) =
     andThen (getProp h x k) (\<lambda>y. andThen (propOfEach h k xs) (\<lambda>ys. Ok (y # ys)))"

definition isDefaultLocale :: "heap \<Rightarrow> val \<Rightarrow> bool" where
  "isDefaultLocale h locale =
     (valueOr (getProp h locale ''default'') \<noteq> JUndefined
      \<and> truthy (valueOr (getProp h locale ''default'')))"

definition defaultLocaleOf :: "heap \<Rightarrow> val list \<Rightarrow> val" where
  "defaultLocaleOf h locales =
     (case find (isDefaultLocale h) locales of
        None \<Rightarrow> JStr ''en-US''
      | Some defaultLocaleObj \<Rightarrow>
          if truthy defaultLocaleObj then valueOr (getProp h defaultLocaleObj ''code'')
          else JStr ''en-US'')"

text \<open>The result is the address of \<^verbatim>\<open>localeItems\<close> and the store that holds it.\<close>

definition flattenLocales :: "nat \<Rightarrow> heap \<Rightarrow> val \<Rightarrow> val list \<Rightarrow> (nat \<times> store) result" where
  "flattenLocales n h localesResult rawItems =
     andThen (getProp h localesResult ''items'') (\<lambda>locales.
       if \<not> isArray locales then Throw TypeError
       else
         andThen (propOfEach h ''code'' (arrayItems locales)) (\<lambda>localeCodes.
         andThen (forEachM (flattenLocale n h (toKey (defaultLocaleOf h (arrayItems locales))) rawItems 0)
                    (map toKey localeCodes) [CObj []])
           (\<lambda>st. Ok (0, st))))"

section \<open>The query entry points\<close>

text \<open>
  The upstream client (\<^verbatim>\<open>ContentfulClient\<close>) is the caller's: the reply to a query at a
  path, and the locale catalogue. The request parameters that \<^verbatim>\<open>_query\<close> forwards to it
  are not modelled; \<open>locale\<close> is \<^verbatim>\<open>query.locale\<close>. \<^verbatim>\<open>_query\<close> is suspended at the
  \<^verbatim>\<open>await\<close> of \<^verbatim>\<open>_createLinks\<close> and, in multi-locale mode, at that of \<^verbatim>\<open>getLocales\<close>;
  the callbacks that \<^verbatim>\<open>_createLinks\<close> has left suspended are resumed there. What they
  log is not part of the result.
\<close>

record client =
  clientQuery :: "string \<Rightarrow> val"
  clientGetLocales :: val

datatype resultItems = Models "val list" | LocaleItems nat store

record queryResult =
  resultItems :: resultItems
  resultSkip :: val
  resultLimit :: val
  resultTotal :: val

definition query :: "nat \<Rightarrow> client \<Rightarrow> string \<Rightarrow> val \<Rightarrow> mediaTransform option \<Rightarrow> (queryResult \<times> heap) result" where
  "query n contentful path locale mediaTransform =
     (let json = clientQuery contentful path;
          multiLocale = (truthy locale \<and> locale = JStr ''*'')
      in andThen (createLinks json multiLocale mediaTransform []) (\<lambda>(links, h, pending).
         let (h0, logged0) = resumeAll BeforeParsing pending (h, [])
         in
         andThen (getProp h0 json ''items'') (\<lambda>jsonItems.
         andThen (parseEntries n jsonItems links multiLocale h0) (\<lambda>(models, h1).
         andThen
           (if multiLocale then
              let (h2, logged2) = resumeAll BeforeFlattening pending (h1, logged0)
              in andThen (flattenLocales n h2 (clientGetLocales contentful) models)
                   (\<lambda>(localeItems, st). Ok (LocaleItems localeItems st, h2))
            else Ok (Models models, h1))
           (\<lambda>(flattened, h3).
              Ok (\<lparr>resultItems = flattened,
                   resultSkip = valueOr (getProp h3 json ''skip''),
                   resultLimit = valueOr (getProp h3 json ''limit''),
                   resultTotal = valueOr (getProp h3 json ''total'')\<rparr>, h3))))))"

definition getModel :: "nat \<Rightarrow> client \<Rightarrow> string \<Rightarrow> (queryResult \<times> heap) result" where
  "getModel n contentful modelId = query n contentful (''/entries/'' @ modelId) JUndefined None"

definition getModels :: "nat \<Rightarrow> client \<Rightarrow> val \<Rightarrow> mediaTransform option \<Rightarrow> (queryResult \<times> heap) result" where
  "getModels n contentful locale mediaTransform = query n contentful ''/entries'' locale mediaTransform"

section \<open>Vocabulary of the properties\<close>


text \<open>
  A reference, as the upstream JSON writes it: an object whose \<^verbatim>\<open>sys\<close> is an object of
  \<^verbatim>\<open>type\<close> \<^verbatim>\<open>"Link"\<close>; \<open>linkId\<close> is its \<^verbatim>\<open>sys.id\<close>.
\<close>

definition linkId :: "val \<Rightarrow> val option" where
  "linkId v =
     (case v of
        JObj ps \<Rightarrow>
          (case ownProp ps ''sys'' of
             JObj sys \<Rightarrow> if ownProp sys ''type'' = JStr ''Link'' then Some (ownProp sys ''id'') else None
           | _ \<Rightarrow> None)
      | _ \<Rightarrow> None)"


text \<open>A slot of the heap that is still deferred.\<close>

definition deferredAt :: "heap \<Rightarrow> nat \<Rightarrow> val" where
  "deferredAt h a = ownProp (objAt h a) ''_deferred''"

text \<open>The id that \<^verbatim>\<open>_dereferenceLink\<close> reads from a reference (its \<^verbatim>\<open>modelId\<close>).\<close>

definition linkTarget :: "heap \<Rightarrow> val \<Rightarrow> string option \<Rightarrow> val result" where
  "linkTarget h reference locale =
     andThen (linkSys h reference locale) (\<lambda>sys. getProp h sys ''id'')"


text \<open>
  A value that is not a reference into the heap, as every value of the upstream JSON is:
  its properties and its keys do not depend on the heap.
\<close>

definition heapFree :: "val \<Rightarrow> bool" where
  "heapFree v = (case v of JRef a \<Rightarrow> False | _ \<Rightarrow> True)"

text \<open>
  A record of the upstream JSON none of whose fields has \<^verbatim>\<open>_deferred\<close> among its keys,
  the keys of a field being its locales in multi-locale mode; and a heap whose deferred
  records are all such.
\<close>

definition wellKeyed :: "val \<Rightarrow> bool" where
  "wellKeyed entry =
     (heapFree entry \<and> heapFree (valueOr (getProp [] entry ''fields'')) \<and>
      list_all (\<lambda>(key, fv). heapFree fv \<and> ''_deferred'' \<notin> set (keysOf [] fv))
        (collectionEntries [] (valueOr (getProp [] entry ''fields''))))"


section \<open>Example payloads\<close>

definition linkTo :: "string \<Rightarrow> string \<Rightarrow> val" where
  "linkTo linkType modelId =
     JObj [(''sys'', JObj [(''type'', JStr ''Link''), (''linkType'', JStr linkType),
                           (''id'', JStr modelId)])]"

definition entrySys :: "string \<Rightarrow> string \<Rightarrow> val" where
  "entrySys modelId typeId =
     JObj [(''id'', JStr modelId),
           (''contentType'', JObj [(''sys'', JObj [(''id'', JStr typeId)])])]"











text \<open>An entry whose field holds an array of two references: one to an asset of the link
  index, one to an id that no record has.\<close>

definition galleryFields :: props where
  "galleryFields = [(''photos'', JArr [linkTo ''Asset'' ''a1'', linkTo ''Asset'' ''zz''])]"

definition galleryEntry :: val where
  "galleryEntry = JObj [(''sys'', entrySys ''g1'' ''album''), (''fields'', JObj galleryFields)]"

definition galleryLinks :: links where
  "galleryLinks = [(''a1'', 0)]"

definition galleryHeap :: heap where
  "galleryHeap = [[(''_id'', JStr ''a1''), (''url'', JStr ''/x.png'')]]"

text \<open>The end-to-end example of the specification: one included asset \<^verbatim>\<open>a1\<close> and one
  top-level entry \<^verbatim>\<open>e1\<close> of type \<^verbatim>\<open>post\<close> with a title and a reference to the asset.\<close>

definition heroAsset :: val where
  "heroAsset =
     JObj [(''sys'', JObj [(''id'', JStr ''a1'')]),
           (''fields'',
            JObj [(''file'',
                   JObj [(''url'', JStr ''/x.png''),
                         (''contentType'', JStr ''image/png''),
                         (''details'',
                          JObj [(''size'', JNum 10),
                                (''image'', JObj [(''width'', JNum 1), (''height'', JNum 1)])])])])]"

definition heroEntry :: val where
  "heroEntry =
     JObj [(''sys'', entrySys ''e1'' ''post''),
           (''fields'', JObj [(''title'', JStr ''Hi''), (''hero'', linkTo ''Asset'' ''a1'')])]"

definition heroPayload :: val where
  "heroPayload =
     JObj [(''items'', JArr [heroEntry]), (''includes'', JObj [(''Asset'', JArr [heroAsset])])]"

definition heroClient :: client where
  "heroClient = \<lparr>clientQuery = (\<lambda>path. heroPayload), clientGetLocales = JUndefined\<rparr>"

definition heroMedia :: props where
  "heroMedia =
     [(''_id'', JStr ''a1''),
      (''url'', JStr ''/x.png''),
      (''description'', JUndefined),
      (''contentType'', JStr ''image/png''),
      (''dimensions'', JObj [(''width'', JNum 1), (''height'', JNum 1)]),
      (''size'', JNum 10),
      (''version'', JUndefined)]"

definition heroModel :: props where
  "heroModel =
     [(''title'', JStr ''Hi''), (''hero'', JRef 0), (''_id'', JStr ''e1''), (''_type'', JStr ''post'')]"

text \<open>An upstream that answers the path of one entry with that entry, as the delivery API
  does, and one that answers every path with the collection of the example.\<close>

definition entryClient :: client where
  "entryClient =
     \<lparr>clientQuery = (\<lambda>path. if path = ''/entries/e1'' then heroEntry else JUndefined),
      clientGetLocales = JUndefined\<rparr>"

text \<open>One result covers another when it is the same whenever the first is a return, and
  likewise for two functions in the place of \<^verbatim>\<open>_dereferenceLink\<close>.\<close>

definition resLe :: "'a result \<Rightarrow> 'a result \<Rightarrow> bool" where
  "resLe r s = (\<forall>x. r = Ok x \<longrightarrow> s = Ok x)"

definition derefLe :: "deref \<Rightarrow> deref \<Rightarrow> bool" where
  "derefLe d e = (\<forall>r links loc h. resLe (d r links loc h) (e r links loc h))"

text \<open>The key under which \<^verbatim>\<open>_createLinks\<close> files a record given as JSON: its
  \<^verbatim>\<open>sys.id\<close>.\<close>

definition recordKey :: "val \<Rightarrow> string option" where
  "recordKey v =
     (case v of
        JObj ps \<Rightarrow>
          (case ownProp ps ''sys'' of JObj sys \<Rightarrow> Some (toKey (ownProp sys ''id'')) | _ \<Rightarrow> None)
      | _ \<Rightarrow> None)"











text \<open>The last record of a list that \<^verbatim>\<open>_createLinks\<close> files under a key.\<close>

definition lastWithKey :: "string \<Rightarrow> val list \<Rightarrow> val option" where
  "lastWithKey k records = find (\<lambda>r. recordKey r = Some k) (rev records)"

text \<open>An included entry and a top-level item with the same id and different titles.\<close>

definition dupIncluded :: val where
  "dupIncluded =
     JObj [(''sys'', entrySys ''d1'' ''post''), (''fields'', JObj [(''title'', JStr ''Included'')])]"

definition dupTop :: val where
  "dupTop =
     JObj [(''sys'', entrySys ''d1'' ''post''), (''fields'', JObj [(''title'', JStr ''Top'')])]"

definition dupPayload :: val where
  "dupPayload =
     JObj [(''items'', JArr [dupTop]), (''includes'', JObj [(''Entry'', JArr [dupIncluded])])]"

definition dupClient :: client where
  "dupClient = \<lparr>clientQuery = (\<lambda>path. dupPayload), clientGetLocales = JUndefined\<rparr>"

text \<open>An asset with a file for each of two locales, a transform that fails on the file of
  the second locale, the same transform when its promises settle only after the locale
  catalogue has arrived, and a transform that fails on every descriptor.\<close>

definition fileOf :: "string \<Rightarrow> val" where
  "fileOf url =
     JObj [(''url'', JStr url),
           (''contentType'', JStr ''image/png''),
           (''details'',
            JObj [(''size'', JNum 10),
                  (''image'', JObj [(''width'', JNum 1), (''height'', JNum 1)])])]"

definition localizedAsset :: val where
  "localizedAsset =
     JObj [(''sys'', JObj [(''id'', JStr ''a1'')]),
           (''fields'',
            JObj [(''file'', JObj [(''en-US'', fileOf ''/en.png''), (''fr'', fileOf ''/fr.png'')])])]"

definition failsOnFrench :: mediaTransform where
  "failsOnFrench =
     Hook (\<lambda>media. if ownProp media ''url'' = JStr ''/fr.png''
                    then Inl (HookError ''boom'') else Inr media)
          (\<lambda>media. True)"

definition slowFailsOnFrench :: mediaTransform where
  "slowFailsOnFrench = Hook (hookResult failsOnFrench) (\<lambda>media. False)"

definition alwaysFails :: mediaTransform where
  "alwaysFails = Hook (\<lambda>media. Inl (HookError ''boom'')) (\<lambda>media. True)"

text \<open>A multi-locale payload: the asset, and an entry whose image is a reference to
  it.\<close>

definition posterEntry :: val where
  "posterEntry =
     JObj [(''sys'', entrySys ''p1'' ''post''),
           (''fields'', JObj [(''image'', JObj [(''en-US'', linkTo ''Asset'' ''a1'')])])]"

definition posterPayload :: val where
  "posterPayload =
     JObj [(''items'', JArr [posterEntry]),
           (''includes'', JObj [(''Asset'', JArr [localizedAsset])])]"

definition mediaOf :: "string \<Rightarrow> props" where
  "mediaOf url =
     [(''_id'', JStr ''a1''),
      (''url'', JStr url),
      (''description'', JUndefined),
      (''contentType'', JStr ''image/png''),
      (''dimensions'', JObj [(''width'', JNum 1), (''height'', JNum 1)]),
      (''size'', JNum 10),
      (''version'', JUndefined)]"

text \<open>A multi-locale entry: a title written in the default locale only and a flag that is
  true in the default locale and false in French; and the catalogue of the two locales.\<close>

definition greetingEntry :: val where
  "greetingEntry =
     JObj [(''sys'', entrySys ''g1'' ''post''),
           (''fields'',
            JObj [(''title'', JObj [(''en-US'', JStr ''Hello'')]),
                  (''published'', JObj [(''en-US'', JBool True), (''fr'', JBool False)])])]"

definition localeCatalog :: val where
  "localeCatalog =
     JObj [(''items'',
            JArr [JObj [(''code'', JStr ''en-US''), (''default'', JBool True)],
                  JObj [(''code'', JStr ''fr'')]])]"

definition posterClient :: client where
  "posterClient = \<lparr>clientQuery = (\<lambda>path. posterPayload), clientGetLocales = localeCatalog\<rparr>"

definition posterModel :: props where
  "posterModel = [(''image'', JRef 0), (''_id'', JStr ''p1''), (''_type'', JStr ''post'')]"




definition greetingClient :: client where
  "greetingClient =
     \<lparr>clientQuery = (\<lambda>path. JObj [(''items'', JArr [greetingEntry])]),
      clientGetLocales = localeCatalog\<rparr>"

definition greetingModel :: props where
  "greetingModel =
     [(''title'', JObj [(''en-US'', JStr ''Hello'')]),
      (''published'', JObj [(''en-US'', JBool True), (''fr'', JBool False)]),
      (''_id'', JStr ''g1''),
      (''_type'', JStr ''post'')]"

text \<open>The flattened model that the locale flattener writes for the entry.\<close>

definition greetingFlat :: "(string \<times> out) list" where
  "greetingFlat =
     [(''title'', OVal (JStr ''Hello'')),
      (''published'', OVal (JBool True)),
      (''_id'', OVal (JStr ''g1'')),
      (''_type'', OVal (JStr ''post''))]"



text \<open>A multi-locale entry with a title and a reference to an entry that the payload does
  not have.\<close>

definition danglingEntry :: val where
  "danglingEntry =
     JObj [(''sys'', entrySys ''e1'' ''post''),
           (''fields'',
            JObj [(''title'', JObj [(''en-US'', JStr ''Hi'')]),
                  (''next'', JObj [(''en-US'', linkTo ''Entry'' ''zz'')])])]"

definition danglingClient :: client where
  "danglingClient =
     \<lparr>clientQuery = (\<lambda>path. JObj [(''items'', JArr [danglingEntry])]),
      clientGetLocales = localeCatalog\<rparr>"

definition danglingModel :: props where
  "danglingModel =
     [(''title'', JObj [(''en-US'', JStr ''Hi'')]),
      (''next'', JObj [(''en-US'', JUndefined)]),
      (''_id'', JStr ''e1''),
      (''_type'', JStr ''post'')]"

definition danglingFlat :: "nat \<Rightarrow> (string \<times> out) list" where
  "danglingFlat c =
     [(''title'', OVal (JStr ''Hi'')),
      (''next'', OCtx c),
      (''_id'', OVal (JStr ''e1'')),
      (''_type'', OVal (JStr ''post''))]"

text \<open>A single-locale entry with a reference to the id \<^verbatim>\<open>constructor\<close>, which no record of
  the payload has.\<close>

definition memberEntry :: val where
  "memberEntry =
     JObj [(''sys'', entrySys ''e1'' ''post''),
           (''fields'', JObj [(''title'', JStr ''Hi''), (''hero'', linkTo ''Asset'' ''constructor'')])]"

definition memberClient :: client where
  "memberClient =
     \<lparr>clientQuery = (\<lambda>path. JObj [(''items'', JArr [memberEntry])]),
      clientGetLocales = JUndefined\<rparr>"

definition memberModel :: props where
  "memberModel =
     [(''title'', JStr ''Hi''),
      (''hero'', JInherited ''constructor''),
      (''_id'', JStr ''e1''),
      (''_type'', JStr ''post'')]"

text \<open>A single-locale entry whose field holds two references, to the included asset
  \<^verbatim>\<open>a1\<close> and to the id \<^verbatim>\<open>constructor\<close>, which no record of the payload has.\<close>

definition albumEntry :: val where
  "albumEntry =
     JObj [(''sys'', entrySys ''g1'' ''album''),
           (''fields'',
            JObj [(''photos'', JArr [linkTo ''Asset'' ''a1'', linkTo ''Asset'' ''constructor''])])]"

definition albumPayload :: val where
  "albumPayload =
     JObj [(''items'', JArr [albumEntry]), (''includes'', JObj [(''Asset'', JArr [heroAsset])])]"

definition albumClient :: client where
  "albumClient = \<lparr>clientQuery = (\<lambda>path. albumPayload), clientGetLocales = JUndefined\<rparr>"

definition albumModel :: props where
  "albumModel =
     [(''photos'', JArr [JRef 0, JInherited ''constructor'']),
      (''_id'', JStr ''g1''),
      (''_type'', JStr ''album'')]"

text \<open>The flattened model of the entry with the image: when no callback of the asset has
  been resumed, and when that of the first locale has.\<close>

definition posterFlat :: "nat \<Rightarrow> (string \<times> out) list" where
  "posterFlat c =
     [(''image'', OCtx c), (''_id'', OVal (JStr ''p1'')), (''_type'', OVal (JStr ''post''))]"

definition imageFlat :: "string \<Rightarrow> nat \<Rightarrow> (string \<times> out) list" where
  "imageFlat url c =
     [(''url'', OVal (JStr url)),
      (''contentType'', OVal (JStr ''image/png'')),
      (''dimensions'', OCtx c),
      (''size'', OVal (JNum 10))]"

definition sizeFlat :: "(string \<times> out) list" where
  "sizeFlat = [(''width'', OVal (JNum 1)), (''height'', OVal (JNum 1))]"

section \<open>Basic facts\<close>

lemma andThen_simps [simp]:
  "andThen (Ok x) f = f x"
  "andThen (Throw e) f = Throw e"
  "andThen OutOfFuel f = OutOfFuel"
  by (simp_all add: andThen_def)

lemma resumeAll_Nil [simp]: "resumeAll p [] s = s"
  by (simp add: resumeAll_def)

lemma andThen_eq_Ok: "andThen m f = Ok y \<longleftrightarrow> (\<exists>x. m = Ok x \<and> f x = Ok y)"
  by (cases m) simp_all

lemma forEachM_invariant:
  assumes "forEachM f xs s = Ok t" and "I s"
    and "\<And>x s1 s2. x \<in> set xs \<Longrightarrow> I s1 \<Longrightarrow> f x s1 = Ok s2 \<Longrightarrow> I s2"
  shows "I t"
  using assms
proof (induction xs arbitrary: s)
  case Nil
  then show ?case by simp
next
  case (Cons x xs)
  from Cons.prems(1) obtain s1 where s1: "f x s = Ok s1" and rest: "forEachM f xs s1 = Ok t"
    by (auto simp: andThen_eq_Ok)
  have "I s1" by (rule Cons.prems(3) [of x s s1]) (simp_all add: Cons.prems(2) s1)
  show ?case
  proof (rule Cons.IH [OF rest \<open>I s1\<close>])
    fix y t1 t2
    assume "y \<in> set xs" "I t1" "f y t1 = Ok t2"
    then show "I t2" using Cons.prems(3) [of y t1 t2] by simp
  qed
qed

lemma getProp_JObj [simp]: "getProp h (JObj ps) k = Ok (ownProp ps k)"
  by (simp add: getProp_def)

lemma parseValue_link:
  assumes "linkId value = Some modelId"
  shows "parseValue deref value links locale h = deref value links locale h"
  using assms
  by (auto simp: linkId_def parseValue_def split: val.splits if_splits)

lemma linkSys_link:
  assumes "linkId value = Some modelId"
  shows "andThen (linkSys h value None) (\<lambda>sys. getProp h sys ''id'') = Ok modelId"
  using assms
  by (auto simp: linkId_def linkSys_def split: val.splits if_splits)

lemma dereferenceLinkBody_link:
  assumes "linkId value = Some modelId"
  shows "dereferenceLinkBody deref value links None h =
     (case map_of links (toKey modelId) of
         None \<Rightarrow> Ok (inherited (toKey modelId), h)
       | Some a \<Rightarrow>
           let h1 = setField a ''_id'' modelId h;
               deferred = ownProp (objAt h1 a) ''_deferred''
           in if truthy deferred then
                andThen (getProp h1 deferred ''sys'') (\<lambda>deferredSys.
                andThen (contentTypeId h1 deferredSys) (\<lambda>typeId.
                andThen (parseEntry deref deferred links False
                           (setField a ''_type'' typeId h1))
                  (\<lambda>(parsed, h2).
                     Ok (JRef a, deleteField a ''_deferred'' (assignProps a parsed h2)))))
              else Ok (JRef a, h1))"
proof -
  have "linkSys h value None = Ok (valueOr (getProp h value ''sys''))"
    and "getProp h (valueOr (getProp h value ''sys'')) ''id'' = Ok modelId"
    using assms by (auto simp: linkId_def linkSys_def valueOr_def split: val.splits if_splits)
  then show ?thesis
    by (simp add: dereferenceLinkBody_def cong: if_cong option.case_cong)
qed

lemma dereferenceLink_missing:
  assumes "linkId value = Some modelId" and "map_of links (toKey modelId) = None"
  shows "dereferenceLink (Suc n) value links None h = Ok (inherited (toKey modelId), h)"
  using assms by (simp add: dereferenceLinkBody_link)

lemma inherited_ordinary [simp]: "k \<notin> set inheritedKeys \<Longrightarrow> inherited k = JUndefined"
  by (simp add: inherited_def)

lemma inherited_member: "k \<in> set inheritedKeys \<Longrightarrow> inherited k = JInherited k"
  by (simp add: inherited_def)


lemma parseField_result:
  assumes "parseField deref links multiLocale (key, value) (fs, h) = Ok (fs1, h1)"
  shows "fs1 = fs \<or> (\<exists>v. fs1 = AList.update key v fs)"
  using assms
  by (auto simp: parseField_def andThen_eq_Ok split: if_splits)

lemma parseField_keys:
  assumes "parseField deref links multiLocale (key, value) (fs, h) = Ok (fs1, h1)"
  shows "fst ` set fs1 \<subseteq> insert key (fst ` set fs)"
  using parseField_result [OF assms] by (elim disjE exE) (simp_all add: dom_update subset_insertI)

lemma parseField_missing:
  assumes "linkId value = Some modelId" and "map_of links (toKey modelId) = None"
    and "toKey modelId \<notin> set inheritedKeys"
    and "parseField (dereferenceLink n) links False (key, value) (fs, h) = Ok (fs1, h1)"
  shows "fs1 = fs \<and> h1 = h"
proof (cases n)
  case 0
  then show ?thesis using assms
    by (auto simp: parseField_def parseValue_link andThen_eq_Ok isArray_def linkId_def split: val.splits if_splits)
next
  case (Suc m)
  have "\<not> isArray value" using assms(1) by (auto simp: linkId_def isArray_def split: val.splits)
  then show ?thesis using assms Suc
    by (auto simp: parseField_def parseValue_link dereferenceLinkBody_link isEmpty_def)
qed

lemma forEachM_append:
  "forEachM f (xs @ ys) s = andThen (forEachM f xs s) (forEachM f ys)"
  by (induction xs arbitrary: s) (simp_all add: andThen_def split: result.splits)

lemma parseField_other:
  assumes "parseField deref links multiLocale (k, v) (fs, h) = Ok (fs1, h1)" and "k \<noteq> key"
  shows "map_of fs1 key = map_of fs key"
  using parseField_result [OF assms(1)] assms(2) by (auto simp: update_conv')

lemma forEach_parseField_other:
  assumes "forEachM (parseField deref links multiLocale) kvs (fs, h) = Ok (fs1, h1)"
    and "key \<notin> fst ` set kvs"
  shows "map_of fs1 key = map_of fs key"
proof -
  have "case (fs1, h1) of (fs2, h2) \<Rightarrow> map_of fs2 key = map_of fs key"
  proof (rule forEachM_invariant [OF assms(1)])
    show "case (fs, h) of (fs2, h2) \<Rightarrow> map_of fs2 key = map_of fs key" by simp
  next
    fix x s1 s2
    assume x: "x \<in> set kvs" and inv: "case s1 of (fs2, h2) \<Rightarrow> map_of fs2 key = map_of fs key"
      and step: "parseField deref links multiLocale x s1 = Ok s2"
    obtain k v where [simp]: "x = (k, v)" by (cases x)
    obtain fa ha where [simp]: "s1 = (fa, ha)" by (cases s1)
    obtain fb hb where [simp]: "s2 = (fb, hb)" by (cases s2)
    have "k \<noteq> key" using x assms(2) by force
    then show "case s2 of (fs2, h2) \<Rightarrow> map_of fs2 key = map_of fs key"
      using parseField_other [of deref links multiLocale k v fa ha fb hb key] step inv by simp
  qed
  then show ?thesis by simp
qed

text \<open>The field of a key that occurs once: what its own step wrote is what the entry holds.\<close>

lemma parseEntry_field:
  assumes "forEachM (parseField deref links multiLocale) kvs ([], h) = Ok (fs, h1)"
    and "distinct (map fst kvs)" and "(key, value) \<in> set kvs"
  shows "\<exists>fs0 h0 fsA hA. parseField deref links multiLocale (key, value) (fs0, h0) = Ok (fsA, hA)
           \<and> map_of fs0 key = None \<and> map_of fs key = map_of fsA key"
proof -
  from assms(3) obtain pre post where kvs: "kvs = pre @ (key, value) # post"
    by (auto simp: in_set_conv_decomp)
  have npre: "key \<notin> fst ` set pre" and npost: "key \<notin> fst ` set post"
    using assms(2) unfolding kvs by auto
  from assms(1) obtain s0 where s0: "forEachM (parseField deref links multiLocale) pre ([], h) = Ok s0"
    and rest: "forEachM (parseField deref links multiLocale) ((key, value) # post) s0 = Ok (fs, h1)"
    unfolding kvs forEachM_append by (auto simp: andThen_eq_Ok)
  obtain fs0 h0 where [simp]: "s0 = (fs0, h0)" by (cases s0)
  from rest obtain sA where sA: "parseField deref links multiLocale (key, value) (fs0, h0) = Ok sA"
    and post: "forEachM (parseField deref links multiLocale) post sA = Ok (fs, h1)"
    by (auto simp: andThen_eq_Ok)
  obtain fsA hA where [simp]: "sA = (fsA, hA)" by (cases sA)
  have "map_of fs0 key = map_of [] key"
    using forEach_parseField_other [of deref links multiLocale pre "[]" h fs0 h0 key] s0 npre by simp
  moreover have "map_of fs key = map_of fsA key"
    using forEach_parseField_other [of deref links multiLocale post fsA hA fs h1 key] post npost by simp
  ultimately show ?thesis using sA by auto
qed

lemma parseEntry_unfold:
  assumes "getProp h entry ''fields'' = Ok entryFields"
  shows "parseEntry deref entry links multiLocale h =
           forEachM (parseField deref links multiLocale) (collectionEntries h entryFields) ([], h)"
  using assms by (simp add: parseEntry_def)

text \<open>
  In single-locale mode, a field whose value is a single reference to an id that the link
  index does not hold and that is not the name of a member of \<^verbatim>\<open>Object.prototype\<close>:
  \<^verbatim>\<open>_dereferenceLink\<close> returns \<^verbatim>\<open>undefined\<close>, raises nothing and leaves the heap as it
  is, and the fields that \<^verbatim>\<open>_parseEntry\<close> returns for the entry do not have the key of
  that field.
\<close>

lemma ordinary_link_omitted:
  assumes "linkId value = Some modelId" and "map_of links (toKey modelId) = None"
    and "toKey modelId \<notin> set inheritedKeys"
    and "getProp h entry ''fields'' = Ok entryFields"
    and "distinct (map fst (collectionEntries h entryFields))"
    and "(key, value) \<in> set (collectionEntries h entryFields)"
  shows "dereferenceLink (Suc n) value links None h = Ok (JUndefined, h) \<and>
         (\<forall>fs h1. parseEntry (dereferenceLink n) entry links False h = Ok (fs, h1)
                    \<longrightarrow> key \<notin> fst ` set fs)"
proof (intro conjI allI impI)
  show "dereferenceLink (Suc n) value links None h = Ok (JUndefined, h)"
    by (simp add: dereferenceLinkBody_link [OF assms(1)] assms(2,3))
next
  fix fs h1
  assume "parseEntry (dereferenceLink n) entry links False h = Ok (fs, h1)"
  then have run: "forEachM (parseField (dereferenceLink n) links False)
                    (collectionEntries h entryFields) ([], h) = Ok (fs, h1)"
    by (simp add: parseEntry_unfold [OF assms(4)])
  from parseEntry_field [OF run assms(5,6)] obtain fs0 h0 fsA hA
    where step: "parseField (dereferenceLink n) links False (key, value) (fs0, h0) = Ok (fsA, hA)"
      and before: "map_of fs0 key = None" and after: "map_of fs key = map_of fsA key"
    by blast
  have "fsA = fs0" using parseField_missing [OF assms(1,2,3) step] by simp
  then have "map_of fs key = None" using before after by simp
  then show "key \<notin> fst ` set fs" by (simp add: map_of_eq_None_iff)
qed


lemma ownProp_Nil [simp]: "ownProp [] k = JUndefined"
  by (simp add: ownProp_def)

lemma ownProp_update: "ownProp (AList.update k v ps) k' = (if k' = k then v else ownProp ps k')"
  by (simp add: ownProp_def update_conv')

lemma ownProp_delete: "ownProp (AList.delete k ps) k' = (if k' = k then JUndefined else ownProp ps k')"
  by (simp add: ownProp_def delete_conv')

lemma length_setField [simp]: "length (setField a k v h) = length h"
  by (simp add: setField_def)

lemma length_deleteField [simp]: "length (deleteField a k h) = length h"
  by (simp add: deleteField_def)

lemma length_assignProps [simp]: "length (assignProps a src h) = length h"
  by (simp add: assignProps_def)

lemma objAt_setField:
  "objAt (setField a k v h) b =
     (if b = a \<and> a < length h then AList.update k v (objAt h a) else objAt h b)"
  by (simp add: objAt_def setField_def)

lemma objAt_deleteField:
  "objAt (deleteField a k h) b =
     (if b = a \<and> a < length h then AList.delete k (objAt h a) else objAt h b)"
  by (simp add: objAt_def deleteField_def)

lemma objAt_assignProps:
  "objAt (assignProps a src h) b =
     (if b = a \<and> a < length h then fold (\<lambda>(k, v). AList.update k v) src (objAt h a)
      else objAt h b)"
  by (simp add: objAt_def assignProps_def)

lemma objAt_beyond: "\<not> a < length h \<Longrightarrow> objAt h a = []"
  by (simp add: objAt_def)

lemma indexOfKey_sys [simp]: "indexOfKey ''sys'' = None"
  by (simp add: indexOfKey_def digitVal_def)






section \<open>Resolution in place\<close>

lemma deferredAt_setField:
  "deferredAt (setField a k v h) b =
     (if b = a \<and> a < length h \<and> k = ''_deferred'' then v else deferredAt h b)"
  by (simp add: deferredAt_def objAt_setField ownProp_update)

lemma deferredAt_deleteField_same:
  "deferredAt (deleteField a ''_deferred'' h) a = JUndefined"
  by (cases "a < length h") (simp_all add: deferredAt_def objAt_deleteField ownProp_delete objAt_beyond)

lemma deferredAt_deleteField_other:
  "b \<noteq> a \<Longrightarrow> deferredAt (deleteField a k h) b = deferredAt h b"
  by (simp add: deferredAt_def objAt_deleteField)

lemma deferredAt_assignProps_other:
  "b \<noteq> a \<Longrightarrow> deferredAt (assignProps a src h) b = deferredAt h b"
  by (simp add: deferredAt_def objAt_assignProps)

lemma truthy_JUndefined [simp]: "\<not> truthy JUndefined"
  by (simp add: truthy_def)

lemma dereferenceLinkBody_target:
  assumes "linkTarget h reference locale = Ok modelId"
  shows "dereferenceLinkBody deref reference links locale h =
     (case map_of links (toKey modelId) of
         None \<Rightarrow> Ok (inherited (toKey modelId), h)
       | Some a \<Rightarrow>
           if truthy (deferredAt (setField a ''_id'' modelId h) a) then
             andThen (getProp (setField a ''_id'' modelId h)
                        (deferredAt (setField a ''_id'' modelId h) a) ''sys'') (\<lambda>deferredSys.
             andThen (contentTypeId (setField a ''_id'' modelId h) deferredSys) (\<lambda>typeId.
             andThen (parseEntry deref (deferredAt (setField a ''_id'' modelId h) a) links
                        (locale \<noteq> None)
                        (setField a ''_type'' typeId (setField a ''_id'' modelId h)))
               (\<lambda>(parsed, h2).
                  Ok (JRef a, deleteField a ''_deferred'' (assignProps a parsed h2)))))
           else Ok (JRef a, setField a ''_id'' modelId h))"
proof -
  from assms obtain sys where "linkSys h reference locale = Ok sys" "getProp h sys ''id'' = Ok modelId"
    by (auto simp: linkTarget_def andThen_eq_Ok)
  then show ?thesis
    by (cases "map_of links (toKey modelId)") (simp_all add: dereferenceLinkBody_def Let_def deferredAt_def)
qed

lemma dereferenceLink_Ok_target:
  assumes "dereferenceLink n reference links locale h = Ok (v, h1)"
  shows "\<exists>modelId. linkTarget h reference locale = Ok modelId"
proof (cases n)
  case 0
  then show ?thesis using assms by simp
next
  case (Suc m)
  then show ?thesis using assms
    by (auto simp: dereferenceLinkBody_def linkTarget_def andThen_eq_Ok)
qed

lemma linkId_linkTarget:
  assumes "linkId value = Some modelId"
  shows "linkTarget h value None = Ok modelId"
  using assms by (auto simp: linkId_def linkTarget_def linkSys_def split: val.splits if_splits)

text \<open>What a dereference that returns has returned, and what it has left in the slot.\<close>

lemma dereferenceLink_returns_slot:
  assumes "dereferenceLink n reference links locale h = Ok (v, h1)"
    and "linkTarget h reference locale = Ok modelId"
    and "map_of links (toKey modelId) = Some a"
  shows "v = JRef a \<and> \<not> truthy (deferredAt h1 a)"
proof (cases n)
  case 0
  then show ?thesis using assms by simp
next
  case (Suc m)
  let ?h0 = "setField a ''_id'' modelId h"
  show ?thesis
  proof (cases "truthy (deferredAt ?h0 a)")
    case True
    then show ?thesis using assms Suc
      by (auto simp: dereferenceLinkBody_target andThen_eq_Ok deferredAt_deleteField_same)
  next
    case False
    then show ?thesis using assms Suc
      by (auto simp: dereferenceLinkBody_target)
  qed
qed



subsection \<open>What single-locale resolution keeps\<close>

lemma mapM_invariant:
  assumes "mapM f xs s = Ok (ys, t)" and "I s"
    and "\<And>x s1 y s2. x \<in> set xs \<Longrightarrow> I s1 \<Longrightarrow> f x s1 = Ok (y, s2) \<Longrightarrow> I s2"
  shows "I t"
  using assms
proof (induction xs arbitrary: s ys)
  case Nil
  then show ?case by simp
next
  case (Cons x xs)
  from Cons.prems(1) obtain y s1 zs where first: "f x s = Ok (y, s1)"
    and rest: "mapM f xs s1 = Ok (zs, t)"
    by (auto simp: andThen_eq_Ok)
  have "I s1" by (rule Cons.prems(3) [of x s y s1]) (simp_all add: Cons.prems(2) first)
  show ?case
  proof (rule Cons.IH [OF rest \<open>I s1\<close>])
    fix z t1 w t2
    assume "z \<in> set xs" "I t1" "f z t1 = Ok (w, t2)"
    then show "I t2" using Cons.prems(3) [of z t1 w t2] by simp
  qed
qed

lemma parseValue_preserves:
  assumes "parseValue deref value links locale h = Ok (v, h1)" and "I h"
    and "\<And>r h2 w h3. I h2 \<Longrightarrow> deref r links locale h2 = Ok (w, h3) \<Longrightarrow> I h3"
  shows "I h1"
  using assms by (auto simp: parseValue_def andThen_eq_Ok split: if_splits)

lemma parseField_single_preserves:
  assumes "parseField deref links False kv (fs, h) = Ok (fs1, h1)" and "I h"
    and "\<And>r h2 w h3. I h2 \<Longrightarrow> deref r links None h2 = Ok (w, h3) \<Longrightarrow> I h3"
  shows "I h1"
proof -
  obtain key fv where [simp]: "kv = (key, fv)" by (cases kv)
  show ?thesis
  proof (cases "isArray fv")
    case True
    with assms(1) obtain items where
      run: "mapM (\<lambda>item. parseValue deref item links None) (arrayItems fv) h = Ok (items, h1)"
      by (auto simp: parseField_def andThen_eq_Ok)
    show ?thesis
    proof (rule mapM_invariant [where I = I, OF run assms(2)])
      fix x s1 y s2
      assume "I s1" "parseValue deref x links None s1 = Ok (y, s2)"
      then show "I s2" using parseValue_preserves [of deref x links None s1 y s2 I] assms(3) by blast
    qed
  next
    case False
    with assms(1) obtain parsed where "parseValue deref fv links None h = Ok (parsed, h1)"
      by (auto simp: parseField_def andThen_eq_Ok)
    then show ?thesis using parseValue_preserves [of deref fv links None h parsed h1 I] assms(2,3)
      by blast
  qed
qed

lemma forEach_parseField_single_preserves:
  assumes "forEachM (parseField deref links False) kvs (fs, h) = Ok (fs1, h1)" and "I h"
    and "\<And>r h2 w h3. I h2 \<Longrightarrow> deref r links None h2 = Ok (w, h3) \<Longrightarrow> I h3"
  shows "I h1"
proof -
  have "case (fs1, h1) of (fs2, h2) \<Rightarrow> I h2"
  proof (rule forEachM_invariant [OF assms(1)])
    show "case (fs, h) of (fs2, h2) \<Rightarrow> I h2" using assms(2) by simp
  next
    fix x s1 s2
    assume inv: "case s1 of (fs2, h2) \<Rightarrow> I h2"
      and step: "parseField deref links False x s1 = Ok s2"
    obtain fa ha where [simp]: "s1 = (fa, ha)" by (cases s1)
    obtain fb hb where [simp]: "s2 = (fb, hb)" by (cases s2)
    have "I hb"
      using parseField_single_preserves [of deref links x fa ha fb hb I] step inv assms(3) by simp
    then show "case s2 of (fs2, h2) \<Rightarrow> I h2" by simp
  qed
  then show ?thesis by simp
qed

lemma parseEntry_single_preserves:
  assumes "parseEntry deref entry links False h = Ok (fs, h1)" and "I h"
    and "\<And>r h2 w h3. I h2 \<Longrightarrow> deref r links None h2 = Ok (w, h3) \<Longrightarrow> I h3"
  shows "I h1"
proof -
  from assms(1) obtain entryFields where
    "forEachM (parseField deref links False) (collectionEntries h entryFields) ([], h) = Ok (fs, h1)"
    by (auto simp: parseEntry_def andThen_eq_Ok)
  then show ?thesis using forEach_parseField_single_preserves [of deref links _ "[]" h fs h1 I] assms(2,3)
    by blast
qed

text \<open>In single-locale mode a slot that is not deferred never becomes deferred again.\<close>

lemma dereferenceLink_keeps_resolved:
  assumes "dereferenceLink n reference links None h = Ok (v, h1)"
    and "\<not> truthy (deferredAt h b)"
  shows "\<not> truthy (deferredAt h1 b)"
  using assms
proof (induction n arbitrary: reference h v h1)
  case 0
  then show ?case by simp
next
  case (Suc n)
  from dereferenceLink_Ok_target [OF Suc.prems(1)] obtain modelId
    where target: "linkTarget h reference None = Ok modelId" by blast
  show ?case
  proof (cases "map_of links (toKey modelId)")
    case None
    then show ?thesis using Suc.prems target by (simp add: dereferenceLinkBody_target)
  next
    case (Some a)
    let ?h0 = "setField a ''_id'' modelId h"
    show ?thesis
    proof (cases "truthy (deferredAt ?h0 a)")
      case False
      then show ?thesis using Suc.prems target Some
        by (auto simp: dereferenceLinkBody_target deferredAt_setField)
    next
      case True
      with Suc.prems(1) target Some obtain typeId parsed h2 where
        parse: "parseEntry (dereferenceLink n) (deferredAt ?h0 a) links False
                  (setField a ''_type'' typeId ?h0) = Ok (parsed, h2)"
        and h1: "h1 = deleteField a ''_deferred'' (assignProps a parsed h2)"
        by (auto simp: dereferenceLinkBody_target andThen_eq_Ok)
      have "\<not> truthy (deferredAt (setField a ''_type'' typeId ?h0) b)"
        using Suc.prems(2) by (simp add: deferredAt_setField)
      then have kept: "\<not> truthy (deferredAt h2 b)"
        using parseEntry_single_preserves [OF parse, of "\<lambda>h. \<not> truthy (deferredAt h b)"] Suc.IH
        by blast
      show ?thesis
      proof (cases "b = a")
        case True
        then show ?thesis by (simp add: h1 deferredAt_deleteField_same)
      next
        case False
        then show ?thesis using kept
          by (simp add: h1 deferredAt_deleteField_other deferredAt_assignProps_other)
      qed
    qed
  qed
qed







section \<open>Arrays of references\<close>

lemma parseEntry_field_run:
  assumes "forEachM (parseField deref links multiLocale) kvs ([], h) = Ok (fs, h1)"
    and "distinct (map fst kvs)" and "(key, fv) \<in> set kvs"
  shows "\<exists>fs0 h0 fsA hA post.
           parseField deref links multiLocale (key, fv) (fs0, h0) = Ok (fsA, hA)
           \<and> forEachM (parseField deref links multiLocale) post (fsA, hA) = Ok (fs, h1)
           \<and> map_of fs0 key = None \<and> map_of fs key = map_of fsA key"
proof -
  from assms(3) obtain pre post where kvs: "kvs = pre @ (key, fv) # post"
    by (auto simp: in_set_conv_decomp)
  have npre: "key \<notin> fst ` set pre" and npost: "key \<notin> fst ` set post"
    using assms(2) unfolding kvs by auto
  from assms(1) obtain s0 where s0: "forEachM (parseField deref links multiLocale) pre ([], h) = Ok s0"
    and rest: "forEachM (parseField deref links multiLocale) ((key, fv) # post) s0 = Ok (fs, h1)"
    unfolding kvs forEachM_append by (auto simp: andThen_eq_Ok)
  obtain fs0 h0 where [simp]: "s0 = (fs0, h0)" by (cases s0)
  from rest obtain sA where sA: "parseField deref links multiLocale (key, fv) (fs0, h0) = Ok sA"
    and post: "forEachM (parseField deref links multiLocale) post sA = Ok (fs, h1)"
    by (auto simp: andThen_eq_Ok)
  obtain fsA hA where [simp]: "sA = (fsA, hA)" by (cases sA)
  have before: "map_of fs0 key = None"
    using forEach_parseField_other [of deref links multiLocale pre "[]" h fs0 h0 key] s0 npre by simp
  have after: "map_of fs key = map_of fsA key"
    using forEach_parseField_other [of deref links multiLocale post fsA hA fs h1 key] post npost by simp
  have step: "parseField deref links multiLocale (key, fv) (fs0, h0) = Ok (fsA, hA)"
    using sA by simp
  have rest: "forEachM (parseField deref links multiLocale) post (fsA, hA) = Ok (fs, h1)"
    using post by simp
  show ?thesis
    by (intro exI conjI) (rule step, rule rest, rule before, rule after)
qed

lemma dereferenceLink_missing_Ok:
  assumes "linkId missing = Some missingId" and "map_of links (toKey missingId) = None"
    and "dereferenceLink n missing links None h = Ok (v, h1)"
  shows "v = inherited (toKey missingId) \<and> h1 = h"
  using assms by (cases n) (auto simp: dereferenceLinkBody_link)

lemma dereferenceLink_found_Ok:
  assumes "linkId found = Some foundId" and "map_of links (toKey foundId) = Some a"
    and "dereferenceLink n found links None h = Ok (v, h1)"
  shows "v = JRef a \<and> \<not> truthy (deferredAt h1 a)"
  using dereferenceLink_returns_slot [OF assms(3) linkId_linkTarget [OF assms(1)] assms(2)] .

lemma truthy_JRef [simp]: "truthy (JRef a)"
  by (simp add: truthy_def)


text \<open>
  In single-locale mode, a field whose value is an array of two references, one to an id
  that the link index holds and one to an id that it does not hold and that is not the
  name of a member of \<^verbatim>\<open>Object.prototype\<close> (in either order), resolves to the array of
  one element, the slot of the first id, and that slot is resolved.
\<close>

lemma ordinary_array_compacted:
  assumes "linkId found = Some foundId" and "map_of links (toKey foundId) = Some a"
    and "linkId missing = Some missingId" and "map_of links (toKey missingId) = None"
    and ordinary: "toKey missingId \<notin> set inheritedKeys"
    and "fv = JArr [found, missing] \<or> fv = JArr [missing, found]"
    and "getProp h entry ''fields'' = Ok entryFields"
    and "distinct (map fst (collectionEntries h entryFields))"
    and "(key, fv) \<in> set (collectionEntries h entryFields)"
    and "parseEntry (dereferenceLink n) entry links False h = Ok (fs, h1)"
  shows "map_of fs key = Some (JArr [JRef a]) \<and> \<not> truthy (deferredAt h1 a)"
proof -
  let ?D = "dereferenceLink n"
  have run: "forEachM (parseField ?D links False) (collectionEntries h entryFields) ([], h) = Ok (fs, h1)"
    using assms(10) by (simp add: parseEntry_unfold [OF assms(7)])
  from parseEntry_field_run [OF run assms(8,9)] obtain fs0 h0 fsA hA post
    where step: "parseField ?D links False (key, fv) (fs0, h0) = Ok (fsA, hA)"
      and post: "forEachM (parseField ?D links False) post (fsA, hA) = Ok (fs, h1)"
      and after: "map_of fs key = map_of fsA key"
    by blast
  have arr: "isArray fv" using assms(6) by (auto simp: isArray_def)
  from step arr obtain items where
    items: "mapM (\<lambda>item. parseValue ?D item links None) (arrayItems fv) h0 = Ok (items, hA)"
    and fsA: "fsA = AList.update key (JArr (compact items)) fs0"
    by (auto simp: parseField_def andThen_eq_Ok)
  have miss: "dereferenceLink m missing links None h2 = Ok (v, h3) \<Longrightarrow> v = JUndefined \<and> h3 = h2"
    for m h2 v h3
    using dereferenceLink_missing_Ok [OF assms(3,4), of m h2 v h3] inherited_ordinary [OF ordinary]
    by simp
  have "items \<in> {[JRef a, JUndefined], [JUndefined, JRef a]} \<and> \<not> truthy (deferredAt hA a)"
    using assms(6)
  proof
    assume "fv = JArr [found, missing]"
    with items obtain v1 h2 v2 where
      "?D found links None h0 = Ok (v1, h2)" "?D missing links None h2 = Ok (v2, hA)"
      "items = [v1, v2]"
      by (auto simp: arrayItems_def andThen_eq_Ok parseValue_link [OF assms(1)] parseValue_link [OF assms(3)])
    then show ?thesis
      using dereferenceLink_found_Ok [OF assms(1,2)] miss
      by blast
  next
    assume "fv = JArr [missing, found]"
    with items obtain v1 h2 v2 where
      "?D missing links None h0 = Ok (v1, h2)" "?D found links None h2 = Ok (v2, hA)"
      "items = [v1, v2]"
      by (auto simp: arrayItems_def andThen_eq_Ok parseValue_link [OF assms(1)] parseValue_link [OF assms(3)])
    then show ?thesis
      using dereferenceLink_found_Ok [OF assms(1,2)] miss
      by blast
  qed
  then have compacted: "compact items = [JRef a]" and resolved: "\<not> truthy (deferredAt hA a)"
    by (auto simp: compact_def)
  have "\<not> truthy (deferredAt h1 a)"
    using forEach_parseField_single_preserves
        [OF post, of "\<lambda>h. \<not> truthy (deferredAt h a)"] resolved dereferenceLink_keeps_resolved
    by blast
  then show ?thesis using after by (simp add: fsA compacted update_conv')
qed

lemma gallery_compacted:
  "parseEntry (dereferenceLink 1) galleryEntry galleryLinks False galleryHeap
     = Ok ([(''photos'', JArr [JRef 0])], galleryHeap)"
  by code_simp

section \<open>More room on the stack changes no result\<close>

lemma resLe_refl [simp]: "resLe r r"
  by (simp add: resLe_def)

lemma resLeD: "resLe r s \<Longrightarrow> r = Ok x \<Longrightarrow> s = Ok x"
  by (simp add: resLe_def)

lemma resLe_trans: "resLe r s \<Longrightarrow> resLe s t \<Longrightarrow> resLe r t"
  by (simp add: resLe_def)

lemma resLe_andThen:
  assumes "resLe m m'" and "\<And>x. resLe (f x) (g x)"
  shows "resLe (andThen m f) (andThen m' g)"
  using assms by (cases m) (auto simp: resLe_def)

lemma resLe_forEachM:
  assumes "\<And>x s1. resLe (f x s1) (g x s1)"
  shows "resLe (forEachM f xs s) (forEachM g xs s)"
proof (induction xs arbitrary: s)
  case Nil
  then show ?case by simp
next
  case (Cons x xs)
  show ?case
    unfolding forEachM.simps
    by (rule resLe_andThen) (rule assms, rule Cons.IH)
qed

lemma resLe_mapM:
  assumes "\<And>x s1. resLe (f x s1) (g x s1)"
  shows "resLe (mapM f xs s) (mapM g xs s)"
proof (induction xs arbitrary: s)
  case Nil
  then show ?case by simp
next
  case (Cons x xs)
  show ?case
    unfolding mapM.simps
    by (rule resLe_andThen, rule assms) (auto intro!: resLe_andThen Cons.IH)
qed

lemma derefLeD: "derefLe d e \<Longrightarrow> resLe (d r links loc h) (e r links loc h)"
  by (simp add: derefLe_def)

lemma parseValue_mono:
  assumes "derefLe d e"
  shows "resLe (parseValue d v links loc h) (parseValue e v links loc h)"
  unfolding parseValue_def
  by (auto intro!: resLe_andThen derefLeD [OF assms])

lemma parseLocale_mono:
  assumes "derefLe d e"
  shows "resLe (parseLocale d v links l s) (parseLocale e v links l s)"
  unfolding parseLocale_def
  by (auto intro!: resLe_andThen resLe_mapM derefLeD [OF assms] parseValue_mono [OF assms]
      split: prod.splits)

lemma parseValueByLocale_mono:
  assumes "derefLe d e"
  shows "resLe (parseValueByLocale d v links h) (parseValueByLocale e v links h)"
  unfolding parseValueByLocale_def
  by (rule resLe_forEachM) (rule parseLocale_mono [OF assms])

lemma parseField_mono:
  assumes "derefLe d e"
  shows "resLe (parseField d links ml kv s) (parseField e links ml kv s)"
  unfolding parseField_def
  by (auto intro!: resLe_andThen resLe_mapM parseValue_mono [OF assms]
        parseValueByLocale_mono [OF assms]
      split: prod.splits)

lemma parseEntry_mono:
  assumes "derefLe d e"
  shows "resLe (parseEntry d entry links ml h) (parseEntry e entry links ml h)"
  unfolding parseEntry_def
  by (auto intro!: resLe_andThen resLe_forEachM parseField_mono [OF assms])

lemma dereferenceLinkBody_mono:
  assumes "derefLe d e"
  shows "derefLe (dereferenceLinkBody d) (dereferenceLinkBody e)"
  unfolding derefLe_def dereferenceLinkBody_def Let_def
  by (auto intro!: resLe_andThen parseEntry_mono [OF assms] split: option.splits)

lemma dereferenceLink_Suc_mono: "derefLe (dereferenceLink n) (dereferenceLink (Suc n))"
proof (induction n)
  case 0
  then show ?case by (simp add: derefLe_def resLe_def)
next
  case (Suc n)
  then show ?case using dereferenceLinkBody_mono by simp
qed

lemma derefLe_trans: "derefLe d e \<Longrightarrow> derefLe e f \<Longrightarrow> derefLe d f"
  unfolding derefLe_def using resLe_trans by blast

lemma dereferenceLink_mono: "derefLe (dereferenceLink n) (dereferenceLink (n + k))"
proof (induction k)
  case 0
  then show ?case by (simp add: derefLe_def)
next
  case (Suc k)
  then show ?case using dereferenceLink_Suc_mono [of "n + k"] derefLe_trans by fastforce
qed

lemma parseItem_mono:
  "resLe (parseItem n links ml entry h) (parseItem (n + k) links ml entry h)"
  unfolding parseItem_def Let_def
  by (auto intro!: resLe_andThen parseEntry_mono [OF dereferenceLink_mono] split: option.splits)

lemma parseEntries_mono:
  "resLe (parseEntries n entries links ml h) (parseEntries (n + k) entries links ml h)"
  unfolding parseEntries_def
  by (rule resLe_mapM) (rule parseItem_mono)

section \<open>The query entry points on the examples\<close>

lemma hero_links:
  "createLinks heroPayload False None [] =
     Ok ([(''a1'', 0), (''e1'', 1)], [heroMedia, [(''_deferred'', heroEntry)]], [])"
  by code_simp

lemma hero_items: "getProp h heroPayload ''items'' = Ok (JArr [heroEntry])"
  by (simp add: heroPayload_def ownProp_def)

lemma hero_paging:
  "getProp h heroPayload ''skip'' = Ok JUndefined"
  "getProp h heroPayload ''limit'' = Ok JUndefined"
  "getProp h heroPayload ''total'' = Ok JUndefined"
  by (simp_all add: heroPayload_def ownProp_def)

lemma hero_entries:
  "parseEntries (Suc n) (JArr [heroEntry]) [(''a1'', 0), (''e1'', Suc 0)] False
     [heroMedia, [(''_deferred'', heroEntry)]] = Ok ([JRef 1], [heroMedia, heroModel])"
proof -
  have "parseEntries 1 (JArr [heroEntry]) [(''a1'', 0), (''e1'', 1)] False
     [heroMedia, [(''_deferred'', heroEntry)]] = Ok ([JRef 1], [heroMedia, heroModel])"
    by code_simp
  then show ?thesis
    using resLeD [OF parseEntries_mono [of 1 _ _ _ _ n]] by simp
qed

lemma hero_query:
  "query (Suc n) heroClient path JUndefined None =
     Ok (\<lparr>resultItems = Models [JRef 1], resultSkip = JUndefined, resultLimit = JUndefined,
          resultTotal = JUndefined\<rparr>, [heroMedia, heroModel])"
  by (simp add: query_def heroClient_def hero_links hero_items hero_paging hero_entries
      valueOr_def)

text \<open>
  Claim C3, as the code has it. For the payload of the end-to-end example,
  \<^verbatim>\<open>getModels\<close> returns one item whose keys are \<^verbatim>\<open>title\<close>, \<^verbatim>\<open>hero\<close>, \<^verbatim>\<open>_id\<close> and
  \<^verbatim>\<open>_type\<close>; its \<^verbatim>\<open>hero\<close> is the media descriptor with the keys \<^verbatim>\<open>_id\<close>, \<^verbatim>\<open>url\<close>,
  \<^verbatim>\<open>description\<close>, \<^verbatim>\<open>contentType\<close>, \<^verbatim>\<open>dimensions\<close>, \<^verbatim>\<open>size\<close> and \<^verbatim>\<open>version\<close>, the
  description and the version being \<^verbatim>\<open>undefined\<close>.
\<close>

theorem hero_example:
  "getModels (Suc n) heroClient JUndefined None =
     Ok (\<lparr>resultItems = Models [JRef 1], resultSkip = JUndefined, resultLimit = JUndefined,
          resultTotal = JUndefined\<rparr>, [heroMedia, heroModel])"
  by (simp add: getModels_def hero_query)

text \<open>Claim C3 as stated fails: the item and its media descriptor have no key \<^verbatim>\<open>id\<close> and
  the item has no key \<^verbatim>\<open>type\<close>; the metadata keys are \<^verbatim>\<open>_id\<close> and \<^verbatim>\<open>_type\<close>.\<close>

theorem hero_example_counterexample:
  "getModels 1 heroClient JUndefined None =
     Ok (\<lparr>resultItems = Models [JRef 1], resultSkip = JUndefined, resultLimit = JUndefined,
          resultTotal = JUndefined\<rparr>, [heroMedia, heroModel]) \<and>
   getProp [heroMedia, heroModel] (JRef 1) ''id'' = Ok JUndefined \<and>
   getProp [heroMedia, heroModel] (JRef 1) ''type'' = Ok JUndefined \<and>
   getProp [heroMedia, heroModel] (JRef 1) ''_id'' = Ok (JStr ''e1'') \<and>
   getProp [heroMedia, heroModel] (JRef 1) ''_type'' = Ok (JStr ''post'') \<and>
   getProp [heroMedia, heroModel] (JRef 1) ''hero'' = Ok (JRef 0) \<and>
   getProp [heroMedia, heroModel] (JRef 0) ''id'' = Ok JUndefined \<and>
   getProp [heroMedia, heroModel] (JRef 0) ''_id'' = Ok (JStr ''a1'')"
  using hero_query [of 0 "''/entries''"]
  by (simp add: getModels_def getProp_def objAt_def ownProp_def heroModel_def heroMedia_def)

text \<open>
  Claim C4 against the code. \<^verbatim>\<open>getModel\<close> returns what \<^verbatim>\<open>_query\<close> returns, the wrapper
  of \<^verbatim>\<open>items\<close>, \<^verbatim>\<open>skip\<close>, \<^verbatim>\<open>limit\<close> and \<^verbatim>\<open>total\<close>: with an upstream that answers the
  path of the entry with the entry, the items are empty and the rest is \<^verbatim>\<open>undefined\<close>;
  with an upstream that answers with a collection, the model is inside the wrapper.
\<close>

theorem getModel_returns_wrapper:
  "getModel n entryClient ''e1'' =
     Ok (\<lparr>resultItems = Models [], resultSkip = JUndefined, resultLimit = JUndefined,
          resultTotal = JUndefined\<rparr>, []) \<and>
   getModel (Suc n) heroClient ''e1'' =
     Ok (\<lparr>resultItems = Models [JRef 1], resultSkip = JUndefined, resultLimit = JUndefined,
          resultTotal = JUndefined\<rparr>, [heroMedia, heroModel])"
proof
  have links: "createLinks heroEntry False None [] = Ok ([], [], [])"
    by code_simp
  have items: "getProp [] heroEntry ''items'' = Ok JUndefined"
    and paging: "getProp [] heroEntry ''skip'' = Ok JUndefined"
      "getProp [] heroEntry ''limit'' = Ok JUndefined"
      "getProp [] heroEntry ''total'' = Ok JUndefined"
    by (simp_all add: heroEntry_def ownProp_def)
  have none: "parseEntries n JUndefined [] False [] = Ok ([], [])"
    by (simp add: parseEntries_def collectionEntries_def isArrayLike_def ownEntries_def)
  show "getModel n entryClient ''e1'' =
     Ok (\<lparr>resultItems = Models [], resultSkip = JUndefined, resultLimit = JUndefined,
          resultTotal = JUndefined\<rparr>, [])"
    by (simp add: getModel_def query_def entryClient_def links items paging none valueOr_def
        truthy_def)
  show "getModel (Suc n) heroClient ''e1'' =
     Ok (\<lparr>resultItems = Models [JRef 1], resultSkip = JUndefined, resultLimit = JUndefined,
          resultTotal = JUndefined\<rparr>, [heroMedia, heroModel])"
    by (simp add: getModel_def hero_query)
qed

section \<open>Reference cycles\<close>












lemma forEachM_Nil_fun [simp]: "forEachM f [] = Ok"
  by (rule ext) simp

lemma andThen_Ok_right [simp]: "andThen m Ok = m"
  by (cases m) simp_all

















section \<open>The link index\<close>

lemma objAt_append_old: "a < length h \<Longrightarrow> objAt (h @ hs) a = objAt h a"
  by (simp add: objAt_def nth_append)

lemma objAt_append_new: "objAt (h @ [ps]) (length h) = ps"
  by (simp add: objAt_def)

lemma find_append:
  "find P (xs @ ys) = (case find P xs of None \<Rightarrow> find P ys | Some x \<Rightarrow> Some x)"
  by (induction xs) simp_all

text \<open>A loop whose every step files a fresh object under a key: each key ends with the
  object of the last element that has it.\<close>

lemma filing_loop:
  assumes "forEachM step xs (l0, h0, g0) = Ok (l1, h1, g1)"
    and "\<forall>x \<in> set xs. \<forall>l h g s. step x (l, h, g) = Ok s
           \<longrightarrow> (\<exists>obj g'. s = (AList.update (key x) (length h) l, h @ [obj], g') \<and> Q x obj)"
  shows "(\<exists>hs. h1 = h0 @ hs)
       \<and> (distinct (map fst l0) \<longrightarrow> distinct (map fst l1))
       \<and> (\<forall>k. case find (\<lambda>x. key x = k) (rev xs) of
                  Some x \<Rightarrow> (\<exists>a. length h0 \<le> a \<and> a < length h1 \<and> map_of l1 k = Some a
                                  \<and> Q x (objAt h1 a))
                | None \<Rightarrow> map_of l1 k = map_of l0 k)"
  using assms
proof (induction xs arbitrary: l0 h0 g0)
  case Nil
  then show ?case by simp
next
  case (Cons x xs)
  from Cons.prems(1) obtain s where first: "step x (l0, h0, g0) = Ok s"
    and rest: "forEachM step xs s = Ok (l1, h1, g1)"
    by (auto simp: andThen_eq_Ok)
  from Cons.prems(2) have "\<forall>l h g s. step x (l, h, g) = Ok s
           \<longrightarrow> (\<exists>obj g'. s = (AList.update (key x) (length h) l, h @ [obj], g') \<and> Q x obj)"
    by simp
  then have "\<exists>obj g'. s = (AList.update (key x) (length h0) l0, h0 @ [obj], g') \<and> Q x obj"
    using first by blast
  then obtain obj g' where
    s: "s = (AList.update (key x) (length h0) l0, h0 @ [obj], g')" and q: "Q x obj"
    by blast
  have later: "\<forall>y \<in> set xs. \<forall>l h g t. step y (l, h, g) = Ok t
           \<longrightarrow> (\<exists>obj g'. t = (AList.update (key y) (length h) l, h @ [obj], g') \<and> Q y obj)"
    using Cons.prems(2) by simp
  note ih = Cons.IH [OF rest [unfolded s] later]
  have ih_grow: "\<exists>hs. h1 = (h0 @ [obj]) @ hs"
    using ih by (rule conjunct1)
  have ih_dist: "distinct (map fst (AList.update (key x) (length h0) l0)) \<longrightarrow> distinct (map fst l1)"
    using ih by (rule conjunct1 [OF conjunct2])
  have ih_slots: "\<forall>k. case find (\<lambda>x. key x = k) (rev xs) of
                  Some y \<Rightarrow> (\<exists>a. length (h0 @ [obj]) \<le> a \<and> a < length h1 \<and> map_of l1 k = Some a
                                  \<and> Q y (objAt h1 a))
                | None \<Rightarrow> map_of l1 k = map_of (AList.update (key x) (length h0) l0) k"
    using ih by (rule conjunct2 [OF conjunct2])
  from ih_grow obtain hs where h1: "h1 = (h0 @ [obj]) @ hs" by blast
  have grow: "\<exists>hs. h1 = h0 @ hs" using h1 by simp
  have dist: "distinct (map fst l0) \<longrightarrow> distinct (map fst l1)"
    using ih_dist by (simp add: distinct_update)
  have slots: "case find (\<lambda>x. key x = k) (rev (x # xs)) of
                  Some x \<Rightarrow> (\<exists>a. length h0 \<le> a \<and> a < length h1 \<and> map_of l1 k = Some a
                                  \<and> Q x (objAt h1 a))
                | None \<Rightarrow> map_of l1 k = map_of l0 k" for k
  proof (cases "find (\<lambda>x. key x = k) (rev xs)")
    case (Some y)
    then have found: "find (\<lambda>x. key x = k) (rev (x # xs)) = Some y" by (simp add: find_append)
    from ih_slots have "case find (\<lambda>x. key x = k) (rev xs) of
                  Some y \<Rightarrow> (\<exists>a. length (h0 @ [obj]) \<le> a \<and> a < length h1 \<and> map_of l1 k = Some a
                                  \<and> Q y (objAt h1 a))
                | None \<Rightarrow> map_of l1 k = map_of (AList.update (key x) (length h0) l0) k"
      by (rule spec)
    then obtain a where "length (h0 @ [obj]) \<le> a" "a < length h1"
      "map_of l1 k = Some a" "Q y (objAt h1 a)"
      unfolding Some by auto
    then have "\<exists>a. length h0 \<le> a \<and> a < length h1 \<and> map_of l1 k = Some a \<and> Q y (objAt h1 a)"
      by auto
    then show ?thesis unfolding found by simp
  next
    case None
    from ih_slots have "case find (\<lambda>x. key x = k) (rev xs) of
                  Some y \<Rightarrow> (\<exists>a. length (h0 @ [obj]) \<le> a \<and> a < length h1 \<and> map_of l1 k = Some a
                                  \<and> Q y (objAt h1 a))
                | None \<Rightarrow> map_of l1 k = map_of (AList.update (key x) (length h0) l0) k"
      by (rule spec)
    then have same: "map_of l1 k = map_of (AList.update (key x) (length h0) l0) k"
      unfolding None by simp
    show ?thesis
    proof (cases "key x = k")
      case True
      then have found: "find (\<lambda>x. key x = k) (rev (x # xs)) = Some x"
        using None by (simp add: find_append)
      have "map_of l1 k = Some (length h0)" using same True by (simp add: update_conv')
      moreover have "objAt h1 (length h0) = obj"
        by (simp add: h1 objAt_def nth_append)
      moreover have "length h0 < length h1" by (simp add: h1)
      ultimately have "\<exists>a. length h0 \<le> a \<and> a < length h1 \<and> map_of l1 k = Some a \<and> Q x (objAt h1 a)"
        using q by auto
      then show ?thesis unfolding found by simp
    next
      case False
      then have found: "find (\<lambda>x. key x = k) (rev (x # xs)) = None"
        using None by (simp add: find_append)
      have "map_of l1 k = map_of l0 k" using same False by (simp add: update_conv')
      then show ?thesis unfolding found by simp
    qed
  qed
  show ?case using grow dist slots by blast
qed

lemma linkEntry_files:
  assumes "recordKey entry \<noteq> None" and "linkEntry entry (l, h, g) = Ok s"
  shows "\<exists>obj g'. s = (AList.update (the (recordKey entry)) (length h) l, h @ [obj], g')
           \<and> obj = [(''_deferred'', entry)]"
  using assms
  by (auto simp: linkEntry_def recordKey_def alloc_def andThen_eq_Ok split: val.splits)

lemma linkAsset_files:
  assumes "recordKey asset \<noteq> None" and "linkAsset multiLocale mediaTransform asset (l, h, g) = Ok s"
  shows "\<exists>obj g'. s = (AList.update (the (recordKey asset)) (length h) l, h @ [obj], g')
           \<and> (\<exists>h0 sys started. getProp h0 asset ''sys'' = Ok sys
                 \<and> assetMedia h0 multiLocale mediaTransform asset sys = Ok (obj, started))"
proof -
  from assms(2) obtain sys media started sysId where sys: "getProp h asset ''sys'' = Ok sys"
    and media: "assetMedia h multiLocale mediaTransform asset sys = Ok (media, started)"
    and ident: "getProp h sys ''id'' = Ok sysId"
    and s: "s = (AList.update (toKey sysId) (length h) l, h @ [media],
                 g @ map (Pair (length h)) started)"
    by (auto simp: linkAsset_def alloc_def andThen_eq_Ok)
  have "the (recordKey asset) = toKey sysId"
    using assms(1) sys ident by (auto simp: recordKey_def split: val.splits)
  then have "s = (AList.update (the (recordKey asset)) (length h) l, h @ [media],
                  g @ map (Pair (length h)) started)"
    using s by simp
  moreover have "\<exists>h0 sys started. getProp h0 asset ''sys'' = Ok sys
                 \<and> assetMedia h0 multiLocale mediaTransform asset sys = Ok (media, started)"
    using sys media by blast
  ultimately show ?thesis by blast
qed

lemma find_recordKey:
  assumes "\<forall>r \<in> set records. recordKey r \<noteq> None"
  shows "find (\<lambda>r. the (recordKey r) = k) (rev records) = lastWithKey k records"
  unfolding lastWithKey_def
  by (rule find_cong) (use assms in auto)

lemma entries_filed:
  assumes "forEachM linkEntry es (l0, h0, g0) = Ok (l1, h1, g1)"
    and "\<forall>r \<in> set es. recordKey r \<noteq> None"
  shows "(\<exists>hs. h1 = h0 @ hs)
       \<and> (distinct (map fst l0) \<longrightarrow> distinct (map fst l1))
       \<and> (\<forall>k. case lastWithKey k es of
                  Some e \<Rightarrow> (\<exists>a. length h0 \<le> a \<and> a < length h1 \<and> map_of l1 k = Some a
                                  \<and> objAt h1 a = [(''_deferred'', e)])
                | None \<Rightarrow> map_of l1 k = map_of l0 k)"
proof -
  have "\<forall>x \<in> set es. \<forall>l h g s. linkEntry x (l, h, g) = Ok s
           \<longrightarrow> (\<exists>obj g'. s = (AList.update (the (recordKey x)) (length h) l, h @ [obj], g')
                   \<and> obj = [(''_deferred'', x)])"
    using assms(2) linkEntry_files by blast
  from filing_loop [OF assms(1) this] show ?thesis
    by (simp add: find_recordKey [OF assms(2)])
qed

lemma assets_filed:
  assumes "forEachM (linkAsset multiLocale mediaTransform) as (l0, h0, g0) = Ok (l1, h1, g1)"
    and "\<forall>r \<in> set as. recordKey r \<noteq> None"
  shows "(\<exists>hs. h1 = h0 @ hs)
       \<and> (distinct (map fst l0) \<longrightarrow> distinct (map fst l1))
       \<and> (\<forall>k. case lastWithKey k as of
                  Some asset \<Rightarrow> (\<exists>a. length h0 \<le> a \<and> a < length h1 \<and> map_of l1 k = Some a
                     \<and> (\<exists>hp sys started. getProp hp asset ''sys'' = Ok sys
                           \<and> assetMedia hp multiLocale mediaTransform asset sys = Ok (objAt h1 a, started)))
                | None \<Rightarrow> map_of l1 k = map_of l0 k)"
proof -
  have "\<forall>x \<in> set as. \<forall>l h g s. linkAsset multiLocale mediaTransform x (l, h, g) = Ok s
           \<longrightarrow> (\<exists>obj g'. s = (AList.update (the (recordKey x)) (length h) l, h @ [obj], g')
                   \<and> (\<exists>hp sys started. getProp hp x ''sys'' = Ok sys
                          \<and> assetMedia hp multiLocale mediaTransform x sys = Ok (obj, started)))"
    using assms(2) linkAsset_files by blast
  from filing_loop [OF assms(1) this] show ?thesis
    by (simp add: find_recordKey [OF assms(2)])
qed

text \<open>
  Claim C5. The link index that \<^verbatim>\<open>_createLinks\<close> builds from a payload of records (each
  an object whose \<^verbatim>\<open>sys\<close> is an object) has one slot for each key, and it is the slot
  of the last top-level item with that key, else of the last included entry with it, else
  the media of the last included asset with it; a key that no record has is not in the
  index. So an id that is both in \<^verbatim>\<open>includes.Entry\<close> and in \<^verbatim>\<open>items\<close> is resolved from
  the top-level item.
\<close>

theorem latest_source_wins:
  assumes "createLinks json multiLocale mediaTransform [] = Ok (links, h, pending)"
    and "iterate (getPath [] json [''includes'', ''Asset'']) = Ok assets"
    and "iterate (getPath [] json [''includes'', ''Entry'']) = Ok entries"
    and "iterate (getPath [] json [''items'']) = Ok topItems"
    and "\<forall>r \<in> set (assets @ entries @ topItems). recordKey r \<noteq> None"
  shows "distinct (map fst links)
       \<and> (\<forall>k. case lastWithKey k topItems of
                  Some e \<Rightarrow> (\<exists>a. map_of links k = Some a \<and> objAt h a = [(''_deferred'', e)])
                | None \<Rightarrow>
                    (case lastWithKey k entries of
                       Some e \<Rightarrow> (\<exists>a. map_of links k = Some a \<and> objAt h a = [(''_deferred'', e)])
                     | None \<Rightarrow>
                         (case lastWithKey k assets of
                            Some asset \<Rightarrow>
                              (\<exists>a hp sys started. map_of links k = Some a
                                 \<and> getProp hp asset ''sys'' = Ok sys
                                 \<and> assetMedia hp multiLocale mediaTransform asset sys
                                      = Ok (objAt h a, started))
                          | None \<Rightarrow> map_of links k = None)))"
proof -
  from assms(1) obtain l1 h1 g1 l2 h2 g2 where
    run1: "forEachM (linkAsset multiLocale mediaTransform) assets ([], [], []) = Ok (l1, h1, g1)"
    and run2: "forEachM linkEntry entries (l1, h1, g1) = Ok (l2, h2, g2)"
    and run3: "forEachM linkEntry topItems (l2, h2, g2) = Ok (links, h, pending)"
    by (auto simp: createLinks_def assms(2,3,4) andThen_eq_Ok)
  have k1: "\<forall>r \<in> set assets. recordKey r \<noteq> None" and k2: "\<forall>r \<in> set entries. recordKey r \<noteq> None"
    and k3: "\<forall>r \<in> set topItems. recordKey r \<noteq> None"
    using assms(5) by auto
  note a = assets_filed [OF run1 k1]
  note b = entries_filed [OF run2 k2]
  note c = entries_filed [OF run3 k3]
  from b obtain hs2 where h2: "h2 = h1 @ hs2" by blast
  from c obtain hs3 where h: "h = h2 @ hs3" by blast
  have "distinct (map fst links)" using a b c by simp
  moreover have "case lastWithKey k topItems of
                  Some e \<Rightarrow> (\<exists>a. map_of links k = Some a \<and> objAt h a = [(''_deferred'', e)])
                | None \<Rightarrow>
                    (case lastWithKey k entries of
                       Some e \<Rightarrow> (\<exists>a. map_of links k = Some a \<and> objAt h a = [(''_deferred'', e)])
                     | None \<Rightarrow>
                         (case lastWithKey k assets of
                            Some asset \<Rightarrow>
                              (\<exists>a hp sys started. map_of links k = Some a
                                 \<and> getProp hp asset ''sys'' = Ok sys
                                 \<and> assetMedia hp multiLocale mediaTransform asset sys
                                      = Ok (objAt h a, started))
                          | None \<Rightarrow> map_of links k = None))" for k
  proof (cases "lastWithKey k topItems")
    case (Some e)
    from c have "case lastWithKey k topItems of
                  Some e \<Rightarrow> (\<exists>a. length h2 \<le> a \<and> a < length h \<and> map_of links k = Some a
                                  \<and> objAt h a = [(''_deferred'', e)])
                | None \<Rightarrow> map_of links k = map_of l2 k" by blast
    then show ?thesis unfolding Some by auto
  next
    case None
    from c have "case lastWithKey k topItems of
                  Some e \<Rightarrow> (\<exists>a. length h2 \<le> a \<and> a < length h \<and> map_of links k = Some a
                                  \<and> objAt h a = [(''_deferred'', e)])
                | None \<Rightarrow> map_of links k = map_of l2 k" by blast
    then have top: "map_of links k = map_of l2 k" unfolding None by simp
    from b have mid: "case lastWithKey k entries of
                  Some e \<Rightarrow> (\<exists>a. length h1 \<le> a \<and> a < length h2 \<and> map_of l2 k = Some a
                                  \<and> objAt h2 a = [(''_deferred'', e)])
                | None \<Rightarrow> map_of l2 k = map_of l1 k" by blast
    show ?thesis
    proof (cases "lastWithKey k entries")
      case (Some e)
      from mid obtain a where "a < length h2" "map_of l2 k = Some a"
        "objAt h2 a = [(''_deferred'', e)]"
        unfolding Some by auto
      then have "map_of links k = Some a \<and> objAt h a = [(''_deferred'', e)]"
        using top by (simp add: h objAt_append_old)
      then show ?thesis unfolding None Some by auto
    next
      case none2: None
      from mid have mid': "map_of l2 k = map_of l1 k" unfolding none2 by simp
      from a have low: "case lastWithKey k assets of
                  Some asset \<Rightarrow> (\<exists>a. length ([]::heap) \<le> a \<and> a < length h1 \<and> map_of l1 k = Some a
                     \<and> (\<exists>hp sys started. getProp hp asset ''sys'' = Ok sys
                           \<and> assetMedia hp multiLocale mediaTransform asset sys = Ok (objAt h1 a, started)))
                | None \<Rightarrow> map_of l1 k = map_of ([]::links) k"
        by (rule conjunct2 [THEN conjunct2, THEN spec [of _ k]])
      show ?thesis
      proof (cases "lastWithKey k assets")
        case (Some asset)
        from low obtain a hp sys started where "a < length h1" "map_of l1 k = Some a"
          "getProp hp asset ''sys'' = Ok sys"
          "assetMedia hp multiLocale mediaTransform asset sys = Ok (objAt h1 a, started)"
          unfolding Some by auto
        moreover from this have "objAt h a = objAt h1 a"
          by (simp add: h h2 objAt_append_old)
        ultimately have "\<exists>a hp sys started. map_of links k = Some a
                                 \<and> getProp hp asset ''sys'' = Ok sys
                                 \<and> assetMedia hp multiLocale mediaTransform asset sys
                                      = Ok (objAt h a, started)"
          using top mid' by auto
        then show ?thesis unfolding None none2 Some by simp
      next
        case none3: None
        from low have "map_of l1 k = None" unfolding none3 by simp
        then show ?thesis unfolding None none2 none3 using top mid' by simp
      qed
    qed
  qed
  ultimately show ?thesis by blast
qed

theorem latest_source_wins_witness:
  "createLinks dupPayload False None [] =
     Ok ([(''d1'', 1)], [[(''_deferred'', dupIncluded)], [(''_deferred'', dupTop)]], []) \<and>
   lastWithKey ''d1'' [dupTop] = Some dupTop \<and>
   map_of [(''d1'', 1::nat)] ''d1'' = Some 1 \<and>
   objAt [[(''_deferred'', dupIncluded)], [(''_deferred'', dupTop)]] 1 = [(''_deferred'', dupTop)] \<and>
   getModels 1 dupClient JUndefined None =
     Ok (\<lparr>resultItems = Models [JRef 1], resultSkip = JUndefined, resultLimit = JUndefined,
          resultTotal = JUndefined\<rparr>,
         [[(''_deferred'', dupIncluded)],
          [(''title'', JStr ''Top''), (''_id'', JStr ''d1''), (''_type'', JStr ''post'')]])"
proof -
  have links: "createLinks dupPayload False None [] =
     Ok ([(''d1'', 1)], [[(''_deferred'', dupIncluded)], [(''_deferred'', dupTop)]], [])"
    by code_simp
  have assets: "iterate (getPath [] dupPayload [''includes'', ''Asset'']) = Ok []"
    and entries: "iterate (getPath [] dupPayload [''includes'', ''Entry'']) = Ok [dupIncluded]"
    and top: "iterate (getPath [] dupPayload [''items'']) = Ok [dupTop]"
    by (simp_all add: iterate_def getPath_def dupPayload_def valueOr_def ownProp_def truthy_def)
  have keys: "\<forall>r \<in> set ([] @ [dupIncluded] @ [dupTop]). recordKey r \<noteq> None"
    by (simp add: recordKey_def dupIncluded_def dupTop_def entrySys_def ownProp_def)
  have last: "lastWithKey ''d1'' [dupTop] = Some dupTop"
    by (simp add: lastWithKey_def recordKey_def dupTop_def entrySys_def ownProp_def)
  have models: "getModels 1 dupClient JUndefined None =
     Ok (\<lparr>resultItems = Models [JRef 1], resultSkip = JUndefined, resultLimit = JUndefined,
          resultTotal = JUndefined\<rparr>,
         [[(''_deferred'', dupIncluded)],
          [(''title'', JStr ''Top''), (''_id'', JStr ''d1''), (''_type'', JStr ''post'')]])"
    by code_simp
  from latest_source_wins [OF links assets entries top keys] links last models
  show ?thesis by (simp add: objAt_def)
qed

section \<open>The choice of a locale\<close>

lemma indexOfKey_default: "indexOfKey ''default'' = None"
  by code_simp

lemma isDefaultLocale_truthy: "isDefaultLocale h d \<Longrightarrow> truthy d"
  by (cases d)
     (simp_all add: isDefaultLocale_def getProp_def valueOr_def truthy_def indexed_def
        indexOfKey_default)

lemma defaultLocaleOf_flagged:
  assumes "\<forall>l \<in> set before. \<not> isDefaultLocale h l" and "isDefaultLocale h d"
  shows "defaultLocaleOf h (before @ d # after) = valueOr (getProp h d ''code'')"
proof -
  have "find (isDefaultLocale h) (before @ d # after) = Some d"
    using assms by (induction before) simp_all
  thus ?thesis using isDefaultLocale_truthy [OF assms(2)] by (simp add: defaultLocaleOf_def)
qed

lemma defaultLocaleOf_unflagged:
  assumes "\<forall>l \<in> set locales. \<not> isDefaultLocale h l"
  shows "defaultLocaleOf h locales = JStr ''en-US''"
proof -
  have "find (isDefaultLocale h) locales = None"
    using assms by (induction locales) simp_all
  thus ?thesis by (simp add: defaultLocaleOf_def)
qed

lemma selectLocale_target:
  "truthy (ownProp byLocale l) \<Longrightarrow> selectLocale h (JObj byLocale) l d = ownProp byLocale l"
  by (simp add: selectLocale_def valueOr_def)

lemma selectLocale_default:
  "\<not> truthy (ownProp byLocale l) \<Longrightarrow> truthy (ownProp byLocale d)
   \<Longrightarrow> selectLocale h (JObj byLocale) l d = ownProp byLocale d"
  by (simp add: selectLocale_def valueOr_def)

text \<open>
  C9. With the locales \<open>en-US\<close> (default) and \<open>fr\<close>, the flattener takes \<open>en-US\<close> as the
  default locale. The title, written at \<open>en-US\<close> only, is flattened to the \<open>en-US\<close> value
  in both outputs. The flag is present at \<open>fr\<close> with the value \<open>false\<close>, and yet the
  flattened \<open>fr\<close> model carries the \<open>en-US\<close> value \<open>true\<close>: the selection tests the value at
  the target locale for truth, not for presence.
\<close>

theorem fallback_hides_false:
  "defaultLocaleOf [greetingModel] (arrayItems (ownProp (ownEntries [] localeCatalog) ''items''))
     = JStr ''en-US''
   \<and> ownProp greetingModel ''published'' = JObj [(''en-US'', JBool True), (''fr'', JBool False)]
   \<and> map_of greetingFlat ''published'' = Some (OVal (JBool True))
   \<and> getModels 2 greetingClient (JStr ''*'') None =
       Ok (\<lparr>resultItems =
              LocaleItems 0
                [CObj [(''en-US'', OCtx 1), (''fr'', OCtx 3)],
                 CArr [OCtx 2], CObj greetingFlat,
                 CArr [OCtx 4], CObj greetingFlat],
            resultSkip = JUndefined, resultLimit = JUndefined, resultTotal = JUndefined\<rparr>,
           [greetingModel])"
  by code_simp

section \<open>The resolver allocates nothing\<close>










section \<open>The first dereference and the later visits\<close>









section \<open>What multi-locale resolution keeps\<close>




lemma wellKeyed_JUndefined [simp]: "wellKeyed JUndefined"
  by (simp add: wellKeyed_def heapFree_def getProp_def valueOr_def collectionEntries_def
      isArrayLike_def ownEntries_def)
















section \<open>References that the link index does not hold\<close>

text \<open>
  Claim C6 against the code. In multi-locale mode, a field whose value under a locale is a
  reference to an entry that the link index does not hold stays in the model: the
  dereference returns \<^verbatim>\<open>undefined\<close>, \<^verbatim>\<open>_parseValueByLocale\<close> stores it under the locale,
  and \<^verbatim>\<open>_.isEmpty\<close> is false for the object that has that key; the flattened models have
  the field as an empty object. In single-locale mode, a reference to the id
  \<^verbatim>\<open>constructor\<close>, which the link index does not hold, is dereferenced to the member of
  \<^verbatim>\<open>Object.prototype\<close> of that name, and the model has the field with that value.
\<close>

theorem missing_link_kept:
  "dereferenceLink 1 (JObj [(''en-US'', linkTo ''Entry'' ''zz'')]) [(''e1'', 0)] (Some ''en-US'')
       [[(''_deferred'', danglingEntry)]]
     = Ok (JUndefined, [[(''_deferred'', danglingEntry)]])
   \<and> getModels 3 danglingClient (JStr ''*'') None =
       Ok (\<lparr>resultItems =
              LocaleItems 0
                [CObj [(''en-US'', OCtx 1), (''fr'', OCtx 4)],
                 CArr [OCtx 2], CObj (danglingFlat 3), CObj [],
                 CArr [OCtx 5], CObj (danglingFlat 6), CObj []],
            resultSkip = JUndefined, resultLimit = JUndefined, resultTotal = JUndefined\<rparr>,
           [danglingModel])
   \<and> map_of danglingModel ''next'' = Some (JObj [(''en-US'', JUndefined)])
   \<and> map_of [(''e1'', 0::nat)] ''constructor'' = None
   \<and> dereferenceLink 1 (linkTo ''Asset'' ''constructor'') [(''e1'', 0)] None
         [[(''_deferred'', memberEntry)]]
       = Ok (JInherited ''constructor'', [[(''_deferred'', memberEntry)]])
   \<and> getModels 1 memberClient JUndefined None =
       Ok (\<lparr>resultItems = Models [JRef 0], resultSkip = JUndefined, resultLimit = JUndefined,
            resultTotal = JUndefined\<rparr>,
           [memberModel])
   \<and> map_of memberModel ''hero'' = Some (JInherited ''constructor'')"
  by code_simp

text \<open>
  Claim C7 against the code. In single-locale mode, an array of two references, the first
  to an included asset and the second to the id \<^verbatim>\<open>constructor\<close>, which the link index does
  not hold, resolves to an array of two elements: the second dereference returns the
  member of \<^verbatim>\<open>Object.prototype\<close> of that name, which is truthy, and \<^verbatim>\<open>_.compact\<close> keeps
  it.
\<close>

theorem array_keeps_member:
  "createLinks albumPayload False None []
     = Ok ([(''a1'', 0), (''g1'', 1)], [heroMedia, [(''_deferred'', albumEntry)]], [])
   \<and> map_of [(''a1'', 0::nat), (''g1'', 1)] ''constructor'' = None
   \<and> getModels 1 albumClient JUndefined None =
       Ok (\<lparr>resultItems = Models [JRef 1], resultSkip = JUndefined, resultLimit = JUndefined,
            resultTotal = JUndefined\<rparr>,
           [heroMedia, albumModel])
   \<and> map_of albumModel ''photos'' = Some (JArr [JRef 0, JInherited ''constructor''])"
  by code_simp

section \<open>Failures of the media transform\<close>

lemma distinct_fold_update:
  assumes "distinct (map fst acc)"
  shows "distinct (map fst (fold (\<lambda>x acc. AList.update (k x) (v x acc) acc) xs acc))"
  using assms by (induction xs arbitrary: acc) (simp_all add: distinct_update)

lemma parseAssetByLocale_distinct:
  assumes "parseAssetByLocale h asset = Ok locales"
  shows "distinct (map fst locales)"
proof -
  have inner: "distinct (map fst acc) \<Longrightarrow>
      distinct (map fst (fold (\<lambda>locale locales.
                         AList.update locale
                           (AList.update key (valueOr (getProp h field locale))
                              (case map_of locales locale of None \<Rightarrow> [] | Some grp \<Rightarrow> grp))
                           locales) ks acc))" for acc key field ks
    by (rule distinct_fold_update)
  have outer: "distinct (map fst acc) \<Longrightarrow>
      distinct (map fst (fold (\<lambda>(key, field) locales.
                  fold (\<lambda>locale locales.
                         AList.update locale
                           (AList.update key (valueOr (getProp h field locale))
                              (case map_of locales locale of None \<Rightarrow> [] | Some grp \<Rightarrow> grp))
                           locales)
                    (keysOf h field) locales) kvs acc))" for acc kvs
  proof (induction kvs arbitrary: acc)
    case Nil
    then show ?case by simp
  next
    case (Cons kv kvs)
    obtain key field where [simp]: "kv = (key, field)" by (cases kv)
    show ?case using Cons.IH [OF inner [OF Cons.prems]] by simp
  qed
  from assms show ?thesis
    using outer [of "[]"] by (auto simp: parseAssetByLocale_def andThen_eq_Ok)
qed

lemma toMedia_transform:
  assumes "toMedia h sys fv None = Ok media"
  shows "toMedia h sys fv (Some transform) =
           (case hookResult transform media of Inl e \<Rightarrow> Throw e | Inr transformed \<Rightarrow> Ok transformed)"
  using assms by (auto simp: toMedia_def andThen_eq_Ok Let_def)

text \<open>In single-locale mode \<^verbatim>\<open>_createLinks\<close> awaits \<^verbatim>\<open>_toMedia\<close>: when the transform fails
  on the descriptor of an included asset and the assets before it were filed, the query
  throws that failure.\<close>

lemma transform_failure_propagates:
  assumes "iterate (getPath [] (clientQuery contentful path) [''includes'', ''Asset''])
             = Ok (pre @ asset # post)"
    and "forEachM (linkAsset False (Some transform)) pre ([], [], []) = Ok (l0, h0, g0)"
    and "getProp h0 asset ''sys'' = Ok sys" and "getProp h0 asset ''fields'' = Ok fv"
    and "toMedia h0 sys fv None = Ok media" and "hookResult transform media = Inl e"
    and "loc \<noteq> JStr ''*''"
  shows "query n contentful path loc (Some transform) = Throw e"
proof -
  have "toMedia h0 sys fv (Some transform) = Throw e"
    using assms(5,6) by (simp add: toMedia_transform)
  then have "assetMedia h0 False (Some transform) asset sys = Throw e"
    using assms(4) by (simp add: assetMedia_def)
  then have "linkAsset False (Some transform) asset (l0, h0, g0) = Throw e"
    using assms(3) by (simp add: linkAsset_def)
  then have "forEachM (linkAsset False (Some transform)) (pre @ asset # post) ([], [], []) = Throw e"
    using assms(2) by (simp add: forEachM_append)
  then have "createLinks (clientQuery contentful path) False (Some transform) [] = Throw e"
    using assms(1) by (simp add: createLinks_def)
  then show ?thesis
    using assms(7) by (simp add: query_def)
qed

lemma single_locale_failure:
  "getModels 1 heroClient JUndefined (Some alwaysFails) = Throw (HookError ''boom'')"
  by code_simp

text \<open>Once the callbacks of a media map are resumed, the map has the transformed
  descriptor of every locale group for which \<^verbatim>\<open>_toMedia\<close> has returned one, and it is
  as it was for every group for which \<^verbatim>\<open>_toMedia\<close> has failed, the failure being
  logged.\<close>

lemma fold_localeMedia:
  "fold (localeMedia h sys mt) locales acc =
     acc @ map (\<lambda>(l, fs). Callback (resumedIn h sys (JObj fs) mt) l (toMedia h sys (JObj fs) mt))
             (filter (\<lambda>(l, fs). truthy (ownProp fs ''file'')) locales)"
  by (induction locales arbitrary: acc) (auto simp: localeMedia_def)

lemma resume_other:
  assumes "resume (a, c) (h, g) = (h1, g1)" and "callbackLocale c \<noteq> l"
  shows "map_of (objAt h1 b) l = map_of (objAt h b) l \<and> set g \<subseteq> set g1 \<and> length h1 = length h"
proof (cases c)
  case (Callback p l' settled)
  then show ?thesis using assms
    by (cases settled) (auto simp: objAt_setField update_conv')
qed

lemma fold_resume_other:
  assumes "fold resume (map (Pair a) cs) (h, g) = (h1, g1)"
    and "l \<notin> callbackLocale ` set cs"
  shows "map_of (objAt h1 b) l = map_of (objAt h b) l \<and> set g \<subseteq> set g1 \<and> length h1 = length h"
  using assms
proof (induction cs arbitrary: h g)
  case Nil
  then show ?case by simp
next
  case (Cons c cs)
  obtain h2 g2 where step: "resume (a, c) (h, g) = (h2, g2)"
    by (cases "resume (a, c) (h, g)")
  have rest: "fold resume (map (Pair a) cs) (h2, g2) = (h1, g1)"
    using Cons.prems(1) by (simp add: step)
  have "callbackLocale c \<noteq> l" and "l \<notin> callbackLocale ` set cs"
    using Cons.prems(2) by auto
  then show ?case
    using Cons.IH [OF rest] resume_other [OF step, of l b] by auto
qed

lemma fold_resume_at:
  assumes run: "fold resume (map (Pair a) cs) (h, g) = (h1, g1)"
    and dist: "distinct (map callbackLocale cs)" and mem: "Callback p l settled \<in> set cs"
    and live: "a < length h"
  shows "case settled of
           Ok transformed \<Rightarrow> map_of (objAt h1 a) l = Some (JObj (AList.delete ''_id'' transformed))
         | Throw e \<Rightarrow> map_of (objAt h1 a) l = map_of (objAt h a) l \<and> e \<in> set g1
         | OutOfFuel \<Rightarrow> map_of (objAt h1 a) l = map_of (objAt h a) l"
proof -
  from mem obtain pre post where cs: "cs = pre @ Callback p l settled # post"
    by (auto simp: in_set_conv_decomp)
  have npre: "l \<notin> callbackLocale ` set pre" and npost: "l \<notin> callbackLocale ` set post"
    using dist unfolding cs by auto
  obtain ha ga where a: "fold resume (map (Pair a) pre) (h, g) = (ha, ga)"
    by (cases "fold resume (map (Pair a) pre) (h, g)")
  obtain hb gb where b: "resume (a, Callback p l settled) (ha, ga) = (hb, gb)"
    by (cases "resume (a, Callback p l settled) (ha, ga)")
  have c: "fold resume (map (Pair a) post) (hb, gb) = (h1, g1)"
    using run by (simp add: cs a b)
  note before = fold_resume_other [OF a npre, of a]
  note after = fold_resume_other [OF c npost, of a]
  have liveA: "a < length ha" using before live by simp
  show ?thesis
  proof (cases settled)
    case (Ok transformed)
    then have "map_of (objAt hb a) l = Some (JObj (AList.delete ''_id'' transformed))"
      using b liveA by (auto simp: objAt_setField update_conv')
    then show ?thesis using after Ok by simp
  next
    case (Throw e)
    then have "hb = ha \<and> e \<in> set gb" using b by auto
    then show ?thesis using before after Throw by auto
  next
    case OutOfFuel
    then have "hb = ha" using b by auto
    then show ?thesis using before after OutOfFuel by auto
  qed
qed

lemma callbacks_resumed:
  assumes groups: "parseAssetByLocale h asset = Ok locales"
    and mem: "(l, fs) \<in> set locales" and hasFile: "truthy (ownProp fs ''file'')"
    and live: "a < length h0"
  shows "\<exists>started h1 g1.
           assetMedia h True mt asset sys = Ok ([], started)
         \<and> fold resume (map (Pair a) started) (h0, g0) = (h1, g1)
         \<and> (case toMedia h sys (JObj fs) mt of
               Ok transformed \<Rightarrow>
                 map_of (objAt h1 a) l = Some (JObj (AList.delete ''_id'' transformed))
             | Throw e \<Rightarrow> map_of (objAt h1 a) l = map_of (objAt h0 a) l \<and> e \<in> set g1
             | OutOfFuel \<Rightarrow> map_of (objAt h1 a) l = map_of (objAt h0 a) l)"
proof -
  let ?mk = "\<lambda>(l, fs). Callback (resumedIn h sys (JObj fs) mt) l (toMedia h sys (JObj fs) mt)"
  let ?started = "map ?mk (filter (\<lambda>(l, fs). truthy (ownProp fs ''file'')) locales)"
  have whole: "assetMedia h True mt asset sys = Ok ([], ?started)"
    using groups by (simp add: assetMedia_def fold_localeMedia)
  obtain h1 g1 where run: "fold resume (map (Pair a) ?started) (h0, g0) = (h1, g1)"
    by (cases "fold resume (map (Pair a) ?started) (h0, g0)")
  have names: "callbackLocale \<circ> ?mk = fst"
    by (rule ext) (simp add: case_prod_beta)
  have dist: "distinct (map callbackLocale ?started)"
    using parseAssetByLocale_distinct [OF groups]
    unfolding map_map names by (rule distinct_map_filter)
  have inList: "Callback (resumedIn h sys (JObj fs) mt) l (toMedia h sys (JObj fs) mt) \<in> set ?started"
    using mem hasFile by force
  from fold_resume_at [OF run dist inList live] whole run show ?thesis by blast
qed

text \<open>In multi-locale mode, when the promises of the hook settle before the locale
  catalogue arrives, the media map has the descriptor of the locale on which the transform
  succeeds and none for the locale on which it fails, and so have the flattened
  models.\<close>

lemma prompt_hook:
  "getModels 4 posterClient (JStr ''*'') (Some failsOnFrench) =
     Ok (\<lparr>resultItems =
            LocaleItems 0
              [CObj [(''en-US'', OCtx 1), (''fr'', OCtx 5)],
               CArr [OCtx 2], CObj (posterFlat 3), CObj (imageFlat ''/en.png'' 4), CObj sizeFlat,
               CArr [OCtx 6], CObj (posterFlat 7), CObj (imageFlat ''/en.png'' 8), CObj sizeFlat],
          resultSkip = JUndefined, resultLimit = JUndefined, resultTotal = JUndefined\<rparr>,
         [[(''_id'', JStr ''a1''),
           (''en-US'', JObj (AList.delete ''_id'' (mediaOf ''/en.png'')))],
          posterModel])"
  by code_simp

text \<open>
  Claim C8 against the code. In multi-locale mode \<^verbatim>\<open>_createLinks\<close> files the media map of
  an asset while it is empty: the callbacks that fill it are suspended, the one on whose
  descriptor the transform fails and the one on whose descriptor it succeeds alike. When
  the promises of the hook settle after the locale catalogue has arrived, the query returns
  before any callback is resumed: the media map has no locale at all, only the \<^verbatim>\<open>_id\<close> that
  the dereference wrote, and so has the image of the flattened models.
\<close>

theorem callbacks_not_awaited:
  "createLinks posterPayload True (Some slowFailsOnFrench) [] =
     Ok ([(''a1'', 0), (''p1'', 1)],
         [[], [(''_deferred'', posterEntry)]],
         [(0, Callback AfterReturn ''en-US'' (Ok (mediaOf ''/en.png''))),
          (0, Callback AfterReturn ''fr'' (Throw (HookError ''boom'')))])
   \<and> getModels 2 posterClient (JStr ''*'') (Some slowFailsOnFrench) =
       Ok (\<lparr>resultItems =
              LocaleItems 0
                [CObj [(''en-US'', OCtx 1), (''fr'', OCtx 4)],
                 CArr [OCtx 2], CObj (posterFlat 3), CObj [(''_id'', OVal (JStr ''a1''))],
                 CArr [OCtx 5], CObj (posterFlat 6), CObj [(''_id'', OVal (JStr ''a1''))]],
            resultSkip = JUndefined, resultLimit = JUndefined, resultTotal = JUndefined\<rparr>,
           [[(''_id'', JStr ''a1'')], posterModel])"
  by code_simp

end
